theory Spec2Isabelle
  imports Main "HOL-Library.Sublist"
begin

section \<open>Python values\<close>

text \<open>
  A Python \<open>str\<close> holds Unicode code points: a text that the program inspects character
  by character is a list of code points, \<open>ustr\<close>. Texts that are only passed on (domain
  names, messages, dictionary keys written in the source) stay \<open>string\<close>; \<open>ustr_of\<close> reads
  such a literal as code points.
\<close>

type_synonym ustr = "nat list"

definition ustr_of :: "string \<Rightarrow> ustr" where
  "ustr_of s = map of_char s"

text \<open>
  The scanner passes untyped Python values around: WHOIS attributes may be a string, a
  datetime, a list of either, or None; the archive service answers with JSON. One datatype
  covers them. \<open>PDate\<close> is a datetime object (shown by its text).
\<close>

datatype pyval =
    PNone
  | PBool bool
  | PInt int
  | PStr ustr
  | PDate string
  | PList "pyval list"
  | PDict "(string \<times> pyval) list"

text \<open>Python truth value testing, as used by \<open>if x:\<close> and \<open>x and y\<close>.\<close>

fun truthy :: "pyval \<Rightarrow> bool" where
  "truthy PNone = False"
| "truthy (PBool b) = b"
| "truthy (PInt n) = (n \<noteq> 0)"
| "truthy (PStr s) = (s \<noteq> [])"
| "truthy (PDate d) = True"
| "truthy (PList xs) = (xs \<noteq> [])"
| "truthy (PDict kvs) = (kvs \<noteq> [])"

section \<open>Strings\<close>

text \<open>
  The tables of the interpreter's Unicode database that the program relies on. They are
  not part of the repository and are taken as given:
  \<^item> \<open>ucd_lower text i\<close> is the lower-case form of the character at position \<open>i\<close> of
    \<open>text\<close>, consulted for characters outside ASCII only. It may be several characters,
    and it may depend on the neighbours (the final sigma);
  \<^item> \<open>ucd_isspace\<close> tells which characters outside ASCII are white space;
  \<^item> \<open>ucd_todecimal\<close> gives the value of a decimal digit outside ASCII.
\<close>

record ucd =
  ucd_lower :: "ustr \<Rightarrow> nat \<Rightarrow> ustr"
  ucd_isspace :: "nat \<Rightarrow> bool"
  ucd_todecimal :: "nat \<Rightarrow> nat option"

text \<open>Lower case of an ASCII character: A to Z become a to z.\<close>

definition ascii_lower :: "nat \<Rightarrow> nat" where
  "ascii_lower c = (if 65 \<le> c \<and> c \<le> 90 then c + 32 else c)"

text \<open>
  \<open>str.lower()\<close>: every character is replaced by its lower-case form, an ASCII character
  by \<open>ascii_lower\<close> and any other as the Unicode tables say. \<open>lower_from U text i cs\<close>
  lowers the rest \<open>cs\<close> of \<open>text\<close> that starts at position \<open>i\<close>.
\<close>

fun lower_from :: "ucd \<Rightarrow> ustr \<Rightarrow> nat \<Rightarrow> ustr \<Rightarrow> ustr" where
  "lower_from U text i [] = []"
| "lower_from U text i (c # cs) =
     (if c < 128 then [ascii_lower c] else ucd_lower U text i) @ lower_from U text (Suc i) cs"

definition lower :: "ucd \<Rightarrow> ustr \<Rightarrow> ustr" where
  "lower U s = lower_from U s 0 s"

text \<open>\<open>ind in s\<close> on strings: \<open>ind\<close> occurs in \<open>s\<close> as a contiguous run.\<close>

fun str_in :: "'a list \<Rightarrow> 'a list \<Rightarrow> bool" where
  "str_in ind [] = (ind = [])"
| "str_in ind (c # cs) = (prefix ind (c # cs) \<or> str_in ind cs)"

text \<open>Python's \<open>any(f(x) for x in xs)\<close>.\<close>

fun any_py :: "('a \<Rightarrow> bool) \<Rightarrow> 'a list \<Rightarrow> bool" where
  "any_py f [] = False"
| "any_py f (x # xs) = (f x \<or> any_py f xs)"

section \<open>The registration classifier\<close>

definition available_indicators :: "string list" where
  "available_indicators =
    [''no match for'', ''not found'', ''no data found'', ''no entries found'',
     ''domain not found'', ''no object found'', ''no matching record'',
     ''status: free'', ''status: available'', ''is available for registration'',
     ''domain status: no object found'', ''no match!!'', ''not registered'',
     ''available for registration'', ''domain available'', ''available domain'',
     ''free domain'', ''domain free'', ''unregistered domain'', ''domain unregistered'',
     ''no match'', ''not found in database'', ''no matching record found'',
     ''domain name not found'', ''object does not exist'', ''no such domain'',
     ''domain status: available'', ''registration status: available'',
     ''state: available'', ''domain state: available'', ''available for purchase'',
     ''this domain is available'', ''domain is available'', ''can be registered'',
     ''eligible for registration'', ''free for registration'', ''open for registration'',
     ''ready for registration'', ''registration available'', ''status code: 210'',
     ''status code: 220'', ''response: 210'', ''response: 220'']"

definition unavailable_indicators :: "string list" where
  "unavailable_indicators =
    [''registrar:'', ''registrant:'', ''creation date:'', ''updated date:'',
     ''expiration date:'', ''name server:'', ''nserver:'', ''status: registered'',
     ''status: active'', ''status: ok'', ''status: connect'',
     ''status: clienttransferprohibited'', ''status: servertransferprohibited'',
     ''domain status: registered'', ''domain status: active'', ''registration date:'',
     ''expiry date:'', ''registry expiry date:'', ''registrar registration expiration date:'',
     ''admin contact:'', ''tech contact:'', ''billing contact:'', ''dnssec:'',
     ''domain servers in listed order:'', ''registered domain'', ''registered on:'',
     ''expires on:'', ''last updated on:'', ''changed:'', ''holder:'', ''person:'',
     ''sponsoring registrar:'', ''whois server:'', ''referral url:'', ''domain name:'',
     ''registry domain id:'', ''registrar whois server:'', ''registrar url:'',
     ''registrar iana id:'', ''registrar abuse contact email:'',
     ''registrar abuse contact phone:'', ''reseller:'', ''domain status:'',
     ''name server'', ''dnssec: unsigned'', ''dnssec: signed'']"

text \<open>
  Lines 142 to 148 of \<open>check_whois_info\<close>: the two flags computed from the lowercased
  text. The pair is \<open>(is_registered, is_available)\<close>.
\<close>

definition classify_lowered :: "ustr \<Rightarrow> bool \<times> bool" where
  "classify_lowered raw_lower =
     (let is_available =
            any_py (\<lambda>indicator. str_in (ustr_of indicator) raw_lower) available_indicators;
          is_registered =
            any_py (\<lambda>indicator. str_in (ustr_of indicator) raw_lower) unavailable_indicators
      in (is_registered, is_available \<and> \<not> is_registered))"

text \<open>Lines 139 to 148: the raw text is lowercased first.\<close>

definition classify :: "ucd \<Rightarrow> ustr \<Rightarrow> bool \<times> bool" where
  "classify U raw = (let raw_lower = lower U raw in classify_lowered raw_lower)"

definition classify_registered :: "ucd \<Rightarrow> ustr \<Rightarrow> bool" where
  "classify_registered U raw = fst (classify U raw)"

definition classify_available :: "ucd \<Rightarrow> ustr \<Rightarrow> bool" where
  "classify_available U raw = snd (classify U raw)"

section \<open>The analysis record\<close>

text \<open>
  The scanner's dictionaries have fixed keys and are modelled as records. \<open>dns_records\<close>,
  \<open>whois_info\<close> and \<open>ssl_info\<close> of an analysis start as the empty dictionary \<open>{}\<close>, which
  is \<open>None\<close> here; \<open>is_available\<close> of an analysis starts as Python's None; the key
  \<open>error\<close> is absent (\<open>None\<close>) until the handler of \<open>analyze_domain\<close> sets it.
\<close>

record dns_info =
  ns_records :: "string list"
  a_records :: "string list"
  mx_records :: "string list"
  txt_records :: "string list"
  cname_records :: "string list"

record whois_record =
  raw_data :: ustr
  registrar :: pyval
  creation_date :: pyval
  expiration_date :: pyval
  last_updated :: pyval
  name_servers :: pyval
  status :: pyval
  registrant :: string
  admin_contact :: string
  tech_contact :: string
  is_registered :: bool
  is_available :: bool

record ssl_record =
  has_ssl :: bool
  issuer :: pyval
  subject :: pyval
  not_before :: pyval
  not_after :: pyval
  serial_number :: pyval
  version :: pyval
  signature_algorithm :: string

record analysis =
  domain :: string
  timestamp :: string
  dns_records :: "dns_info option"
  whois_info :: "whois_record option"
  ssl_info :: "ssl_record option"
  signatures :: "string list"
  is_available' :: "bool option"
  quality_score :: int
  recommendations :: "string list"
  error :: "string option"

text \<open>
  \<open>d.get(key)\<close> followed by a truth test: a key missing from the dictionary gives None,
  which is false.
\<close>

definition dns_get :: "analysis \<Rightarrow> (dns_info \<Rightarrow> string list) \<Rightarrow> bool" where
  "dns_get a key = (case dns_records a of None \<Rightarrow> False | Some d \<Rightarrow> key d \<noteq> [])"

definition whois_get :: "analysis \<Rightarrow> (whois_record \<Rightarrow> pyval) \<Rightarrow> bool" where
  "whois_get a key = (case whois_info a of None \<Rightarrow> False | Some w \<Rightarrow> truthy (key w))"

definition ssl_get_has_ssl :: "analysis \<Rightarrow> bool" where
  "ssl_get_has_ssl a = (case ssl_info a of None \<Rightarrow> False | Some c \<Rightarrow> has_ssl c)"

section \<open>Quality score and recommendations\<close>

definition calculate_quality_score :: "analysis \<Rightarrow> int" where
  "calculate_quality_score a =
     (let score = 0;
          score = (if dns_get a ns_records then score + 20 else score);
          score = (if dns_get a a_records then score + 20 else score);
          score = (if dns_get a mx_records then score + 15 else score);
          score = (if dns_get a txt_records then score + 10 else score);
          score = (if whois_get a registrar then score + 10 else score);
          score = (if whois_get a creation_date then score + 10 else score);
          score = (if whois_get a name_servers then score + 10 else score);
          score = (if ssl_get_has_ssl a then score + 15 else score)
      in min score 100)"

definition generate_recommendations :: "analysis \<Rightarrow> string list" where
  "generate_recommendations a =
     (let recommendations = [];
          recommendations =
            (if is_available' a = Some True
             then recommendations @ [''Domain is available for registration'']
             else recommendations @ [''Domain is already registered'']);
          recommendations =
            (if \<not> dns_get a a_records
             then recommendations @ [''No A records found - domain may not be actively used'']
             else recommendations);
          recommendations =
            (if \<not> ssl_get_has_ssl a
             then recommendations @ [''No SSL certificate found - HTTPS not available'']
             else recommendations);
          recommendations =
            (if quality_score a < 50
             then recommendations @ [''Low quality score - limited web presence'']
             else if quality_score a > 80
             then recommendations @ [''High quality score - strong web presence'']
             else recommendations)
      in recommendations)"


section \<open>The outside world\<close>

text \<open>
  An \<open>exn\<close> is an instance of Python's \<open>Exception\<close>, the class of every fault a library call
  reports; the string is what \<open>str(e)\<close> gives. Interpreter signals outside \<open>Exception\<close>
  (keyboard interrupt, interpreter exit) are not faults and are not modelled.
\<close>

datatype exn = Exn string

fun str_exn :: "exn \<Rightarrow> string" where
  "str_exn (Exn m) = m"

datatype rrtype = NS | A | MX | TXT | CNAME

text \<open>
  One record of a DNS answer: its \<open>str()\<close>, and for MX the texts of its preference and its
  exchange as an f-string formats them.
\<close>

record rdata =
  rd_str :: string
  rd_preference :: string
  rd_exchange :: string

text \<open>
  What \<open>whois.whois\<close> returns: its truth value, its \<open>str()\<close>, and its attributes
  (\<open>hasattr\<close> is membership in the attribute table). The entry is plain data: once the
  call has returned, reading it does not fault.
\<close>

record whois_entry =
  w_truthy :: bool
  w_str :: ustr
  w_attrs :: "(string \<times> pyval) list"

text \<open>
  The peer certificate with the fields in the form \<open>ssl_info\<close> stores them; \<open>None\<close> in
  place of a certificate is the empty or missing one, which is false in \<open>if cert:\<close>.
\<close>

record cert =
  cert_issuer :: pyval
  cert_subject :: pyval
  cert_notBefore :: pyval
  cert_notAfter :: pyval
  cert_serialNumber :: pyval
  cert_version :: pyval

text \<open>
  An HTTP response: the status code and what \<open>response.json()\<close> gives, which raises when the
  body is not JSON.
\<close>

record response =
  status_code :: int
  json_result :: "exn + pyval"

text \<open>
  The state of the world is the history of what the program did to it, oldest event first.
  The collaborators answer a call from the history so far, so two calls with the same
  arguments may be answered differently. The record of collaborators also carries the
  Unicode tables of the interpreter the program runs on.
\<close>

datatype event =
    DnsQuery string rrtype
  | WhoisQuery string
  | TlsConnect string int
  | HttpGet string
  | Sleep int
  | ClockRead

type_synonym world = "event list"

record net =
  resolve :: "world \<Rightarrow> string \<Rightarrow> rrtype \<Rightarrow> exn + rdata list"
  whois_lookup :: "world \<Rightarrow> string \<Rightarrow> exn + whois_entry"
  tls_getpeercert :: "world \<Rightarrow> string \<Rightarrow> int \<Rightarrow> exn + cert option"
  requests_get :: "world \<Rightarrow> string \<Rightarrow> exn + response"
  now_isoformat :: "world \<Rightarrow> string"
  unicode :: ucd

section \<open>Expressions and statements\<close>

text \<open>
  An expression of type \<open>'a io\<close> is evaluated in a world and either raises (\<open>Inl\<close>) or
  returns a value (\<open>Inr\<close>).
\<close>

type_synonym 'a io = "world \<Rightarrow> (exn + 'a) \<times> world"

definition ret :: "'a \<Rightarrow> 'a io" where
  "ret x s = (Inr x, s)"

definition raise_exn :: "exn \<Rightarrow> 'a io" where
  "raise_exn e s = (Inl e, s)"

definition lift_result :: "exn + 'a \<Rightarrow> 'a io" where
  "lift_result r s = (r, s)"

definition bind_io :: "'a io \<Rightarrow> ('a \<Rightarrow> 'b io) \<Rightarrow> 'b io" where
  "bind_io m f s = (case m s of (Inl e, s') \<Rightarrow> (Inl e, s') | (Inr x, s') \<Rightarrow> f x s')"

text \<open>\<open>try: return body  except Exception as e: return handler(e)\<close> on expressions.\<close>

definition try_io :: "'a io \<Rightarrow> (exn \<Rightarrow> 'a io) \<Rightarrow> 'a io" where
  "try_io body handler s =
     (case body s of (Inl e, s') \<Rightarrow> handler e s' | (Inr x, s') \<Rightarrow> (Inr x, s'))"

text \<open>
  A statement works on the local variables \<open>'r\<close> of a function. Its outcome is the exception
  it raised, if any, together with the local variables at that moment: what a statement
  stored before it raised stays stored.
\<close>

type_synonym 'r stmt = "'r \<Rightarrow> world \<Rightarrow> (exn option \<times> 'r) \<times> world"

definition pass :: "'r stmt" where
  "pass r s = ((None, r), s)"

text \<open>
  \<open>target = expr\<close>: the expression is evaluated first; when it raises nothing is stored.
\<close>

definition assign :: "('r \<Rightarrow> 'a io) \<Rightarrow> ('r \<Rightarrow> 'a \<Rightarrow> 'r) \<Rightarrow> 'r stmt" where
  "assign expr store r s =
     (case expr r s of
        (Inl e, s') \<Rightarrow> ((Some e, r), s')
      | (Inr v, s') \<Rightarrow> ((None, store r v), s'))"

text \<open>Statements in sequence: the first one that raises ends the block.\<close>

fun seq :: "'r stmt list \<Rightarrow> 'r stmt" where
  "seq [] r s = ((None, r), s)"
| "seq (st # sts) r s =
     (case st r s of
        ((Some e, r'), s') \<Rightarrow> ((Some e, r'), s')
      | ((None, r'), s') \<Rightarrow> seq sts r' s')"

definition if_stmt :: "('r \<Rightarrow> bool) \<Rightarrow> 'r stmt \<Rightarrow> 'r stmt" where
  "if_stmt cond body r s = (if cond r then body r s else ((None, r), s))"

text \<open>\<open>try: body  except Exception as e: handler(e)\<close>, also for a bare \<open>except:\<close>.\<close>

definition try_stmt :: "'r stmt \<Rightarrow> (exn \<Rightarrow> 'r stmt) \<Rightarrow> 'r stmt" where
  "try_stmt body handler r s =
     (case body r s of
        ((Some e, r'), s') \<Rightarrow> handler e r' s'
      | ((None, r'), s') \<Rightarrow> ((None, r'), s'))"

text \<open>
  A function whose body is a statement over locals starting at \<open>r0\<close> and which ends with
  \<open>return result(locals)\<close>: an exception that leaves the body leaves the function.
\<close>

definition run_fn :: "'r stmt \<Rightarrow> 'r \<Rightarrow> ('r \<Rightarrow> 'a) \<Rightarrow> 'a io" where
  "run_fn body r0 result s =
     (case body r0 s of
        ((Some e, r), s') \<Rightarrow> (Inl e, s')
      | ((None, r), s') \<Rightarrow> (Inr (result r), s'))"

subsection \<open>Calls to the collaborators\<close>

definition dns_resolve :: "net \<Rightarrow> string \<Rightarrow> rrtype \<Rightarrow> rdata list io" where
  "dns_resolve n d rr s = (resolve n s d rr, s @ [DnsQuery d rr])"

definition whois_whois :: "net \<Rightarrow> string \<Rightarrow> whois_entry io" where
  "whois_whois n d s = (whois_lookup n s d, s @ [WhoisQuery d])"

definition tls_connect :: "net \<Rightarrow> string \<Rightarrow> int \<Rightarrow> cert option io" where
  "tls_connect n d timeout s = (tls_getpeercert n s d timeout, s @ [TlsConnect d timeout])"

definition http_get :: "net \<Rightarrow> string \<Rightarrow> response io" where
  "http_get n url s = (requests_get n s url, s @ [HttpGet url])"

definition time_sleep :: "int \<Rightarrow> unit io" where
  "time_sleep t s = (Inr (), s @ [Sleep t])"

definition datetime_now :: "net \<Rightarrow> string io" where
  "datetime_now n s = (Inr (now_isoformat n s), s @ [ClockRead])"

section \<open>The signal fetchers\<close>

definition empty_dns_info :: dns_info where
  "empty_dns_info =
     \<lparr>ns_records = [], a_records = [], mx_records = [], txt_records = [],
      cname_records = []\<rparr>"

definition mx_text :: "rdata \<Rightarrow> string" where
  "mx_text record = rd_preference record @ '' '' @ rd_exchange record"

definition check_dns_records :: "net \<Rightarrow> string \<Rightarrow> dns_info io" where
  "check_dns_records n dname =
     run_fn
       (try_stmt
          (seq
            [try_stmt
               (assign (\<lambda>_. dns_resolve n dname NS)
                  (\<lambda>dns_info ns. dns_info\<lparr>ns_records := map rd_str ns\<rparr>))
               (\<lambda>_. pass),
             try_stmt
               (assign (\<lambda>_. dns_resolve n dname A)
                  (\<lambda>dns_info a. dns_info\<lparr>a_records := map rd_str a\<rparr>))
               (\<lambda>_. pass),
             try_stmt
               (assign (\<lambda>_. dns_resolve n dname MX)
                  (\<lambda>dns_info mx. dns_info\<lparr>mx_records := map mx_text mx\<rparr>))
               (\<lambda>_. pass),
             try_stmt
               (assign (\<lambda>_. dns_resolve n dname TXT)
                  (\<lambda>dns_info txt. dns_info\<lparr>txt_records := map rd_str txt\<rparr>))
               (\<lambda>_. pass),
             try_stmt
               (assign (\<lambda>_. dns_resolve n dname CNAME)
                  (\<lambda>dns_info cname. dns_info\<lparr>cname_records := map rd_str cname\<rparr>))
               (\<lambda>_. pass)])
          (\<lambda>e. pass))
       empty_dns_info
       (\<lambda>dns_info. dns_info)"

definition empty_whois_info :: whois_record where
  "empty_whois_info =
     \<lparr>raw_data = [], registrar = PStr [], creation_date = PNone, expiration_date = PNone,
      last_updated = PNone, name_servers = PList [], status = PList [], registrant = [],
      admin_contact = [], tech_contact = [], is_registered = False, is_available = False\<rparr>"

text \<open>\<open>w.x if hasattr(w, 'x') and w.x else default\<close> and \<open>w.x if hasattr(w, 'x') else None\<close>.\<close>

definition attr_truthy_or :: "whois_entry \<Rightarrow> string \<Rightarrow> pyval \<Rightarrow> pyval" where
  "attr_truthy_or w name dflt =
     (case map_of (w_attrs w) name of
        None \<Rightarrow> dflt
      | Some v \<Rightarrow> if truthy v then v else dflt)"

definition attr_or_none :: "whois_entry \<Rightarrow> string \<Rightarrow> pyval" where
  "attr_or_none w name = (case map_of (w_attrs w) name of None \<Rightarrow> PNone | Some v \<Rightarrow> v)"

text \<open>The body of \<open>if w:\<close> in \<open>check_whois_info\<close>.\<close>

definition fill_whois :: "net \<Rightarrow> whois_record \<Rightarrow> whois_entry \<Rightarrow> whois_record" where
  "fill_whois n info w =
     (let whois_info = info\<lparr>raw_data := w_str w\<rparr>;
          whois_info = whois_info\<lparr>registrar := attr_truthy_or w ''registrar'' (PStr [])\<rparr>;
          whois_info = whois_info\<lparr>creation_date := attr_or_none w ''creation_date''\<rparr>;
          whois_info = whois_info\<lparr>expiration_date := attr_or_none w ''expiration_date''\<rparr>;
          whois_info = whois_info\<lparr>last_updated := attr_or_none w ''updated_date''\<rparr>;
          whois_info = whois_info\<lparr>name_servers := attr_truthy_or w ''name_servers'' (PList [])\<rparr>;
          whois_info = whois_info\<lparr>status := attr_truthy_or w ''status'' (PList [])\<rparr>;
          flags = classify (unicode n) (raw_data whois_info)
      in whois_info\<lparr>is_available := snd flags, is_registered := fst flags\<rparr>)"

text \<open>
  The loop \<open>for attempt in range(max_retries)\<close> over the attempts still to run. A query that
  returns ends the loop (\<open>break\<close>); one that raises is followed by \<open>time.sleep(2)\<close> unless it
  was the last attempt.
\<close>

fun whois_attempts :: "net \<Rightarrow> string \<Rightarrow> int \<Rightarrow> int list \<Rightarrow> whois_record stmt" where
  "whois_attempts n dname max_retries [] info s = ((None, info), s)"
| "whois_attempts n dname max_retries (attempt # rest) info s =
     (case whois_whois n dname s of
        (Inr w, s1) \<Rightarrow>
          ((None, if w_truthy w then fill_whois n info w else info), s1)
      | (Inl e, s1) \<Rightarrow>
          (if attempt < max_retries - 1
           then whois_attempts n dname max_retries rest info (snd (time_sleep 2 s1))
           else whois_attempts n dname max_retries rest info s1))"

text \<open>Python's \<open>range(n)\<close>.\<close>

definition range_py :: "int \<Rightarrow> int list" where
  "range_py n = map int [0..<nat n]"

definition check_whois_info :: "net \<Rightarrow> string \<Rightarrow> int \<Rightarrow> whois_record io" where
  "check_whois_info n dname max_retries =
     run_fn (whois_attempts n dname max_retries (range_py max_retries))
       empty_whois_info (\<lambda>whois_info. whois_info)"

definition empty_ssl_info :: ssl_record where
  "empty_ssl_info =
     \<lparr>has_ssl = False, issuer = PStr [], subject = PStr [], not_before = PNone,
      not_after = PNone, serial_number = PStr [], version = PStr [],
      signature_algorithm = []\<rparr>"

definition check_ssl_certificate :: "net \<Rightarrow> string \<Rightarrow> int \<Rightarrow> ssl_record io" where
  "check_ssl_certificate n dname timeout =
     run_fn
       (try_stmt
          (assign (\<lambda>_. tls_connect n dname timeout)
             (\<lambda>ssl_info c.
                case c of
                  None \<Rightarrow> ssl_info
                | Some crt \<Rightarrow>
                    ssl_info\<lparr>has_ssl := True, issuer := cert_issuer crt,
                      subject := cert_subject crt, not_before := cert_notBefore crt,
                      not_after := cert_notAfter crt, serial_number := cert_serialNumber crt,
                      version := cert_version crt\<rparr>))
          (\<lambda>e. pass))
       empty_ssl_info
       (\<lambda>ssl_info. ssl_info)"

text \<open>
  \<open>check_domain_signatures\<close> asks the sources again; the default arguments of the two
  fetchers it calls are \<open>max_retries = 3\<close> and \<open>timeout = 5\<close>.
\<close>

definition check_domain_signatures :: "net \<Rightarrow> string \<Rightarrow> string list io" where
  "check_domain_signatures n dname =
     run_fn
       (try_stmt
          (seq
            [try_stmt
               (assign (\<lambda>_. dns_resolve n dname NS)
                  (\<lambda>signatures ns. if ns \<noteq> [] then signatures @ [''DNS_NS''] else signatures))
               (\<lambda>_. pass),
             try_stmt
               (assign (\<lambda>_. dns_resolve n dname A)
                  (\<lambda>signatures a. if a \<noteq> [] then signatures @ [''DNS_A''] else signatures))
               (\<lambda>_. pass),
             try_stmt
               (assign (\<lambda>_. dns_resolve n dname MX)
                  (\<lambda>signatures mx. if mx \<noteq> [] then signatures @ [''DNS_MX''] else signatures))
               (\<lambda>_. pass),
             assign (\<lambda>_. check_whois_info n dname 3)
               (\<lambda>signatures whois_info.
                  if is_registered whois_info then signatures @ [''WHOIS''] else signatures),
             assign (\<lambda>_. check_ssl_certificate n dname 5)
               (\<lambda>signatures ssl_info.
                  if has_ssl ssl_info then signatures @ [''SSL''] else signatures)])
          (\<lambda>e. pass))
       []
       (\<lambda>signatures. signatures)"

section \<open>The orchestrator\<close>

text \<open>
  \<open>analyze_domain\<close> reaches its steps through \<open>self\<close>, so what runs is whatever the instance
  provides under these names. The method table makes that lookup explicit: a method is
  an expression that may raise. \<open>scanner\<close> is the table of \<open>DomainScanner\<close> itself.
\<close>

record methods =
  m_check_dns_records :: "string \<Rightarrow> dns_info io"
  m_check_whois_info :: "string \<Rightarrow> whois_record io"
  m_check_ssl_certificate :: "string \<Rightarrow> ssl_record io"
  m_check_domain_signatures :: "string \<Rightarrow> string list io"
  m_calculate_quality_score :: "analysis \<Rightarrow> int io"
  m_generate_recommendations :: "analysis \<Rightarrow> string list io"

definition scanner :: "net \<Rightarrow> methods" where
  "scanner n =
     \<lparr>m_check_dns_records = check_dns_records n,
      m_check_whois_info = (\<lambda>dname. check_whois_info n dname 3),
      m_check_ssl_certificate = (\<lambda>dname. check_ssl_certificate n dname 5),
      m_check_domain_signatures = check_domain_signatures n,
      m_calculate_quality_score = (\<lambda>a. ret (calculate_quality_score a)),
      m_generate_recommendations = (\<lambda>a. ret (generate_recommendations a))\<rparr>"

text \<open>The dictionary literal at the top of \<open>analyze_domain\<close>.\<close>

definition initial_analysis :: "string \<Rightarrow> string \<Rightarrow> analysis" where
  "initial_analysis dname ts =
     \<lparr>domain = dname, timestamp = ts, dns_records = None, whois_info = None,
      ssl_info = None, signatures = [], is_available' = None, quality_score = 0,
      recommendations = [], error = None\<rparr>"

text \<open>
  \<open>analysis['whois_info']['is_available']\<close>: a KeyError on the empty dictionary.
\<close>

definition whois_is_available :: "analysis \<Rightarrow> bool io" where
  "whois_is_available a =
     (case whois_info a of
        None \<Rightarrow> raise_exn (Exn ''is_available'')
      | Some w \<Rightarrow> ret (is_available w))"

text \<open>The seven statements inside the \<open>try\<close> of \<open>analyze_domain\<close>, in order.\<close>

definition analyze_steps :: "methods \<Rightarrow> string \<Rightarrow> analysis stmt list" where
  "analyze_steps M dname =
     [assign (\<lambda>_. m_check_dns_records M dname) (\<lambda>a v. a\<lparr>dns_records := Some v\<rparr>),
      assign (\<lambda>_. m_check_whois_info M dname) (\<lambda>a v. a\<lparr>whois_info := Some v\<rparr>),
      assign (\<lambda>_. m_check_ssl_certificate M dname) (\<lambda>a v. a\<lparr>ssl_info := Some v\<rparr>),
      assign (\<lambda>_. m_check_domain_signatures M dname) (\<lambda>a v. a\<lparr>signatures := v\<rparr>),
      assign whois_is_available (\<lambda>a v. a\<lparr>is_available' := Some v\<rparr>),
      assign (m_calculate_quality_score M) (\<lambda>a v. a\<lparr>quality_score := v\<rparr>),
      assign (m_generate_recommendations M) (\<lambda>a v. a\<lparr>recommendations := v\<rparr>)]"

definition analyze_domain_with :: "net \<Rightarrow> methods \<Rightarrow> string \<Rightarrow> analysis io" where
  "analyze_domain_with n M dname =
     bind_io (datetime_now n) (\<lambda>ts.
       run_fn
         (try_stmt (seq (analyze_steps M dname))
            (\<lambda>e. assign (\<lambda>_. ret (str_exn e)) (\<lambda>a v. a\<lparr>error := Some v\<rparr>)))
         (initial_analysis dname ts)
         (\<lambda>a. a))"

definition analyze_domain :: "net \<Rightarrow> string \<Rightarrow> analysis io" where
  "analyze_domain n = analyze_domain_with n (scanner n)"

section \<open>The batch driver\<close>

text \<open>
  An entry of \<open>results['domains']\<close>: the record \<open>analyze_domain\<close> returned, or the failure
  stub with the keys \<open>domain\<close>, \<open>error\<close> and \<open>timestamp\<close>.
\<close>

datatype entry =
    Analysis analysis
  | Failure (stub_domain: string) (stub_error: string) (stub_timestamp: string)

record results =
  total_domains :: int
  processed :: int
  successful :: int
  failed :: int
  domains :: "entry list"

text \<open>
  The loop of \<open>batch_analyze_domains\<close>; \<open>analyze\<close> is \<open>self.analyze_domain\<close>.
\<close>

fun batch_loop :: "net \<Rightarrow> (string \<Rightarrow> analysis io) \<Rightarrow> string list \<Rightarrow> results \<Rightarrow> world
    \<Rightarrow> results \<times> world" where
  "batch_loop n analyze [] res s = (res, s)"
| "batch_loop n analyze (dname # rest) res s =
     (case analyze dname s of
        (Inr a, s1) \<Rightarrow>
          (let res = res\<lparr>domains := domains res @ [Analysis a]\<rparr>;
               res = res\<lparr>successful := successful res + 1\<rparr>;
               res = res\<lparr>processed := processed res + 1\<rparr>
           in batch_loop n analyze rest res s1)
      | (Inl e, s1) \<Rightarrow>
          (let ts = now_isoformat n s1;
               s2 = s1 @ [ClockRead];
               res = res\<lparr>domains := domains res @ [Failure dname (str_exn e) ts]\<rparr>;
               res = res\<lparr>failed := failed res + 1\<rparr>;
               res = res\<lparr>processed := processed res + 1\<rparr>
           in batch_loop n analyze rest res s2))"

definition batch_analyze_domains_with ::
    "net \<Rightarrow> (string \<Rightarrow> analysis io) \<Rightarrow> string list \<Rightarrow> world \<Rightarrow> results \<times> world" where
  "batch_analyze_domains_with n analyze ds s =
     batch_loop n analyze ds
       \<lparr>total_domains = int (length ds), processed = 0, successful = 0, failed = 0,
        domains = []\<rparr> s"

definition batch_analyze_domains :: "net \<Rightarrow> string list \<Rightarrow> world \<Rightarrow> results \<times> world" where
  "batch_analyze_domains n = batch_analyze_domains_with n (analyze_domain n)"

text \<open>What an entry says about itself under the keys \<open>domain\<close> and \<open>error\<close>.\<close>

fun entry_domain :: "entry \<Rightarrow> string" where
  "entry_domain (Analysis a) = domain a"
| "entry_domain (Failure d e t) = d"


fun is_stub :: "entry \<Rightarrow> bool" where
  "is_stub (Analysis a) = False"
| "is_stub (Failure d e t) = True"

section \<open>The web archive analyzer\<close>

subsection \<open>Operations on Python values\<close>

text \<open>\<open>d.get(key, default)\<close>: only a dictionary has the method.\<close>

fun py_get :: "pyval \<Rightarrow> string \<Rightarrow> pyval \<Rightarrow> exn + pyval" where
  "py_get (PDict kvs) key dflt = Inr (case map_of kvs key of None \<Rightarrow> dflt | Some v \<Rightarrow> v)"
| "py_get v key dflt = Inl (Exn ''AttributeError'')"

text \<open>\<open>d[key]\<close> with a string key.\<close>

fun py_item :: "pyval \<Rightarrow> string \<Rightarrow> exn + pyval" where
  "py_item (PDict kvs) key =
     (case map_of kvs key of None \<Rightarrow> Inl (Exn ''KeyError'') | Some v \<Rightarrow> Inr v)"
| "py_item v key = Inl (Exn ''TypeError'')"

fun py_len :: "pyval \<Rightarrow> exn + int" where
  "py_len (PStr s) = Inr (int (length s))"
| "py_len (PList xs) = Inr (int (length xs))"
| "py_len (PDict kvs) = Inr (int (length kvs))"
| "py_len v = Inl (Exn ''TypeError'')"

text \<open>\<open>v[1]\<close>: a JSON object has string keys only, so the key 1 is never found.\<close>

fun py_index1 :: "pyval \<Rightarrow> exn + pyval" where
  "py_index1 (PList xs) = (if 1 < length xs then Inr (xs ! 1) else Inl (Exn ''IndexError''))"
| "py_index1 (PStr s) = (if 1 < length s then Inr (PStr [s ! 1]) else Inl (Exn ''IndexError''))"
| "py_index1 (PDict kvs) = Inl (Exn ''KeyError'')"
| "py_index1 v = Inl (Exn ''TypeError'')"

text \<open>\<open>v[:4]\<close>.\<close>

fun py_slice4 :: "pyval \<Rightarrow> exn + pyval" where
  "py_slice4 (PStr s) = Inr (PStr (take 4 s))"
| "py_slice4 (PList xs) = Inr (PList (take 4 xs))"
| "py_slice4 v = Inl (Exn ''TypeError'')"

text \<open>
  \<open>int(text)\<close>. A text with characters outside ASCII is first brought to ASCII: a Unicode
  white space becomes a blank, a Unicode decimal digit the ASCII digit of its value, and
  any other such character a question mark, which no number contains. Then white space
  around the number is dropped (blank, tab, line feed, vertical tab, form feed, carriage
  return), a sign may lead, and single underscores may stand between digits.
\<close>

definition int_ascii :: "ucd \<Rightarrow> nat \<Rightarrow> nat" where
  "int_ascii U c =
     (if c < 128 then c
      else if ucd_isspace U c then 32
      else (case ucd_todecimal U c of None \<Rightarrow> 63 | Some v \<Rightarrow> 48 + v))"

definition is_space :: "nat \<Rightarrow> bool" where
  "is_space c = ((9 \<le> c \<and> c \<le> 13) \<or> c = 32)"

definition strip :: "ustr \<Rightarrow> ustr" where
  "strip s = rev (dropWhile is_space (rev (dropWhile is_space s)))"

definition digit_val :: "nat \<Rightarrow> nat option" where
  "digit_val c = (if 48 \<le> c \<and> c \<le> 57 then Some (c - 48) else None)"

text \<open>The digits after the first, with the value read so far; 95 is the underscore.\<close>

fun parse_digits :: "nat \<Rightarrow> ustr \<Rightarrow> nat option" where
  "parse_digits acc [] = Some acc"
| "parse_digits acc [c] =
     (case digit_val c of None \<Rightarrow> None | Some v \<Rightarrow> Some (acc * 10 + v))"
| "parse_digits acc (c # d # ds) =
     (if c = 95
      then (case digit_val d of None \<Rightarrow> None | Some v \<Rightarrow> parse_digits (acc * 10 + v) ds)
      else (case digit_val c of
              None \<Rightarrow> None
            | Some v \<Rightarrow> parse_digits (acc * 10 + v) (d # ds)))"

definition parse_unsigned :: "ustr \<Rightarrow> nat option" where
  "parse_unsigned s =
     (case s of
        [] \<Rightarrow> None
      | c # cs \<Rightarrow> (case digit_val c of None \<Rightarrow> None | Some v \<Rightarrow> parse_digits v cs))"

text \<open>45 is the minus sign and 43 the plus sign.\<close>

definition parse_int :: "ucd \<Rightarrow> ustr \<Rightarrow> int option" where
  "parse_int U s =
     (case strip (map (int_ascii U) s) of
        [] \<Rightarrow> None
      | c # cs \<Rightarrow>
          if c = 45 then map_option (\<lambda>v. - int v) (parse_unsigned cs)
          else if c = 43 then map_option int (parse_unsigned cs)
          else map_option int (parse_unsigned (c # cs)))"

fun py_int :: "ucd \<Rightarrow> pyval \<Rightarrow> exn + int" where
  "py_int U (PStr s) =
     (case parse_int U s of None \<Rightarrow> Inl (Exn ''ValueError'') | Some v \<Rightarrow> Inr v)"
| "py_int U (PInt v) = Inr v"
| "py_int U (PBool b) = Inr (if b then 1 else 0)"
| "py_int U v = Inl (Exn ''TypeError'')"

subsection \<open>The analyzer\<close>

definition wayback_base_url :: string where
  "wayback_base_url = ''http://archive.org/wayback/available''"

definition cdx_base_url :: string where
  "cdx_base_url = ''http://web.archive.org/cdx/search/search/cdx''"

definition not_available :: pyval where
  "not_available = PDict [(''available'', PBool False)]"

text \<open>The chain \<open>data.get('archived_snapshots', {}).get('closest', {}).get(key, '')\<close>.\<close>

definition closest_get :: "pyval \<Rightarrow> string \<Rightarrow> pyval io" where
  "closest_get data key =
     bind_io (lift_result (py_get data ''archived_snapshots'' (PDict []))) (\<lambda>snaps.
     bind_io (lift_result (py_get snaps ''closest'' (PDict []))) (\<lambda>closest.
     lift_result (py_get closest key (PStr []))))"

definition check_wayback_availability :: "net \<Rightarrow> string \<Rightarrow> pyval io" where
  "check_wayback_availability n dname =
     try_io
       (bind_io (http_get n (wayback_base_url @ ''?url='' @ dname)) (\<lambda>response.
          if status_code response = 200
          then
            bind_io (lift_result (json_result response)) (\<lambda>data.
            bind_io (lift_result (py_get data ''available'' (PBool False))) (\<lambda>available.
            bind_io (closest_get data ''url'') (\<lambda>url.
            bind_io (closest_get data ''timestamp'') (\<lambda>ts.
            bind_io (closest_get data ''status'') (\<lambda>st.
            ret (PDict [(''available'', available), (''url'', url), (''timestamp'', ts),
                        (''status'', st)]))))))
          else ret not_available))
       (\<lambda>e. ret not_available)"

definition get_snapshot_count :: "net \<Rightarrow> string \<Rightarrow> pyval io" where
  "get_snapshot_count n dname =
     try_io
       (bind_io
          (http_get n
             (cdx_base_url @ ''?url='' @ dname @ ''&output=json&limit=1&showNumPages=true''))
          (\<lambda>response.
             if status_code response = 200
             then
               bind_io (lift_result (json_result response)) (\<lambda>data.
               lift_result (py_get data ''num_pages'' (PInt 0)))
             else ret (PInt 0)))
       (\<lambda>e. ret (PInt 0))"

record wa_analysis =
  domain' :: string
  has_snapshots :: pyval
  total_snapshots :: pyval
  first_snapshot :: pyval
  last_snapshot :: pyval
  years_covered :: int
  error' :: "string option"

text \<open>
  One directional query: the timestamp \<open>data[1][1]\<close> when the service answers 200 with a
  body that is true and longer than one, and nothing to store otherwise.
\<close>

definition snapshot_query :: "net \<Rightarrow> string \<Rightarrow> string \<Rightarrow> pyval option io" where
  "snapshot_query n dname order =
     bind_io
       (http_get n (cdx_base_url @ ''?url='' @ dname @ ''&output=json&limit=1&sort='' @ order))
       (\<lambda>response.
          if status_code response = 200
          then
            bind_io (lift_result (json_result response)) (\<lambda>data.
              if truthy data
              then
                bind_io (lift_result (py_len data)) (\<lambda>len.
                  if len > 1
                  then
                    bind_io (lift_result (py_index1 data)) (\<lambda>row.
                    bind_io (lift_result (py_index1 row)) (\<lambda>ts. ret (Some ts)))
                  else ret None)
              else ret None)
          else ret None)"

text \<open>\<open>int(snapshot[:4])\<close>.\<close>

definition year_of :: "ucd \<Rightarrow> pyval \<Rightarrow> int io" where
  "year_of U snapshot =
     bind_io (lift_result (py_slice4 snapshot)) (\<lambda>y. lift_result (py_int U y))"

text \<open>The last statement of the block: the years covered, from the two timestamps.\<close>

definition years_covered_stmt :: "net \<Rightarrow> wa_analysis stmt" where
  "years_covered_stmt n =
     if_stmt (\<lambda>a. truthy (first_snapshot a) \<and> truthy (last_snapshot a))
       (assign
          (\<lambda>a. bind_io (year_of (unicode n) (first_snapshot a)) (\<lambda>first_year.
                 bind_io (year_of (unicode n) (last_snapshot a)) (\<lambda>last_year.
                 ret (last_year - first_year + 1))))
          (\<lambda>a v. a\<lparr>years_covered := v\<rparr>))"

text \<open>The block under \<open>if analysis['has_snapshots']:\<close>.\<close>

definition snapshots_block :: "net \<Rightarrow> string \<Rightarrow> wa_analysis stmt" where
  "snapshots_block n dname =
     seq
       [assign (\<lambda>_. get_snapshot_count n dname) (\<lambda>a v. a\<lparr>total_snapshots := v\<rparr>),
        assign (\<lambda>_. snapshot_query n dname ''oldest'')
          (\<lambda>a v. case v of None \<Rightarrow> a | Some ts \<Rightarrow> a\<lparr>first_snapshot := ts\<rparr>),
        assign (\<lambda>_. snapshot_query n dname ''latest'')
          (\<lambda>a v. case v of None \<Rightarrow> a | Some ts \<Rightarrow> a\<lparr>last_snapshot := ts\<rparr>),
        years_covered_stmt n]"

definition initial_wa_analysis :: "string \<Rightarrow> wa_analysis" where
  "initial_wa_analysis dname =
     \<lparr>domain' = dname, has_snapshots = PBool False, total_snapshots = PInt 0,
      first_snapshot = PNone, last_snapshot = PNone, years_covered = 0, error' = None\<rparr>"

definition analyze_webarchive :: "net \<Rightarrow> string \<Rightarrow> wa_analysis io" where
  "analyze_webarchive n dname =
     run_fn
       (try_stmt
          (seq
            [assign
               (\<lambda>_. bind_io (check_wayback_availability n dname) (\<lambda>availability.
                      lift_result (py_item availability ''available'')))
               (\<lambda>a v. a\<lparr>has_snapshots := v\<rparr>),
             if_stmt (\<lambda>a. truthy (has_snapshots a)) (snapshots_block n dname)])
          (\<lambda>e. assign (\<lambda>_. ret (str_exn e)) (\<lambda>a v. a\<lparr>error' := Some v\<rparr>)))
       (initial_wa_analysis dname)
       (\<lambda>a. a)"

section \<open>Example inputs\<close>

text \<open>
  A fragment of the Unicode tables: the Kelvin sign (8490) lowers to k and the dotted
  capital I (304) to i with a combining dot, every other character is taken as its own
  lower case; the next-line character (133) and the no-break space (160) are white space;
  the Arabic-Indic digits (1632 to 1641) are decimal digits.
\<close>

definition sample_ucd :: ucd where
  "sample_ucd =
     \<lparr>ucd_lower = (\<lambda>text i.
        if text ! i = 8490 then [107] else if text ! i = 304 then [105, 775] else [text ! i]),
      ucd_isspace = (\<lambda>c. c = 133 \<or> c = 160),
      ucd_todecimal = (\<lambda>c. if 1632 \<le> c \<and> c \<le> 1641 then Some (c - 1632) else None)\<rparr>"

text \<open>A record for a domain about which no source reported anything.\<close>

definition silent_record :: analysis where
  "silent_record =
     (initial_analysis ''example.com'' ''2024-01-01T00:00:00'')
       \<lparr>dns_records := Some empty_dns_info, whois_info := Some empty_whois_info,
        ssl_info := Some empty_ssl_info, is_available' := Some False\<rparr>"

text \<open>A record in which every source reported something.\<close>

definition busy_record :: analysis where
  "busy_record =
     (initial_analysis ''example.com'' ''2024-01-01T00:00:00'')
       \<lparr>dns_records := Some
          \<lparr>ns_records = [''ns1.example.com.''], a_records = [''93.184.216.34''],
           mx_records = [''10 mail.example.com.''], txt_records = [''v=spf1 -all''],
           cname_records = []\<rparr>,
        whois_info := Some (empty_whois_info
          \<lparr>registrar := PStr (ustr_of ''Example Registrar''),
           creation_date := PDate ''1995-08-14'',
           name_servers := PList [PStr (ustr_of ''ns1.example.com'')]\<rparr>),
        ssl_info := Some (empty_ssl_info\<lparr>has_ssl := True\<rparr>),
        is_available' := Some False\<rparr>"

text \<open>A network on which every call faults.\<close>

definition dead_net :: net where
  "dead_net =
     \<lparr>resolve = (\<lambda>s d rr. Inl (Exn ''timeout'')),
      whois_lookup = (\<lambda>s d. Inl (Exn ''timeout'')),
      tls_getpeercert = (\<lambda>s d t. Inl (Exn ''timeout'')),
      requests_get = (\<lambda>s url. Inl (Exn ''timeout'')),
      now_isoformat = (\<lambda>s. ''2024-01-01T00:00:00''),
      unicode = sample_ucd\<rparr>"

text \<open>What the recovering network answers once it answers.\<close>

definition example_entry :: whois_entry where
  "example_entry =
     \<lparr>w_truthy = True, w_str = ustr_of ''Registrar: Example'', w_attrs = []\<rparr>"

definition example_cert :: cert where
  "example_cert =
     \<lparr>cert_issuer = PDict [], cert_subject = PDict [], cert_notBefore = PStr [],
      cert_notAfter = PStr [], cert_serialNumber = PStr [], cert_version = PInt 3\<rparr>"

text \<open>
  A network on which each source faults the first time it is asked a question and answers
  when it is asked the same question again.
\<close>

definition recovering_net :: net where
  "recovering_net =
     \<lparr>resolve = (\<lambda>s d rr.
        if DnsQuery d rr \<in> set s
        then Inr [\<lparr>rd_str = ''192.0.2.1'', rd_preference = ''10'', rd_exchange = ''mx.''\<rparr>]
        else Inl (Exn ''timeout'')),
      whois_lookup = (\<lambda>s d.
        if WhoisQuery d \<in> set s
        then Inr example_entry
        else Inl (Exn ''timeout'')),
      tls_getpeercert = (\<lambda>s d t.
        if TlsConnect d t \<in> set s
        then Inr (Some example_cert)
        else Inl (Exn ''timeout'')),
      requests_get = (\<lambda>s url. Inl (Exn ''timeout'')),
      now_isoformat = (\<lambda>s. ''2024-01-01T00:00:00''),
      unicode = sample_ucd\<rparr>"

text \<open>The history after the three fetchers of \<open>analyze_domain\<close> ran on the recovering network.\<close>

definition recovering_fetched :: "string \<Rightarrow> world" where
  "recovering_fetched d =
     [ClockRead, DnsQuery d NS, DnsQuery d A, DnsQuery d MX, DnsQuery d TXT, DnsQuery d CNAME,
      WhoisQuery d, Sleep 2, WhoisQuery d, TlsConnect d 5]"

text \<open>The scanner with a DNS fetcher that faults unexpectedly.\<close>

definition faulty_scanner :: "net \<Rightarrow> methods" where
  "faulty_scanner n = (scanner n)\<lparr>m_check_dns_records := (\<lambda>dname. raise_exn (Exn ''boom''))\<rparr>"

text \<open>What the scanner leaves in the history of the dead network, and what it returns.\<close>

definition dead_history :: "string \<Rightarrow> world" where
  "dead_history d =
     [ClockRead, DnsQuery d NS, DnsQuery d A, DnsQuery d MX, DnsQuery d TXT, DnsQuery d CNAME,
      WhoisQuery d, Sleep 2, WhoisQuery d, Sleep 2, WhoisQuery d, TlsConnect d 5,
      DnsQuery d NS, DnsQuery d A, DnsQuery d MX, WhoisQuery d, Sleep 2, WhoisQuery d,
      Sleep 2, WhoisQuery d, TlsConnect d 5]"

definition silent_result :: analysis where
  "silent_result =
     silent_record\<lparr>recommendations :=
       [''Domain is already registered'',
        ''No A records found - domain may not be actively used'',
        ''No SSL certificate found - HTTPS not available'',
        ''Low quality score - limited web presence'']\<rparr>"

text \<open>
  An archive service that knows \<open>example.com\<close> and reports the two timestamps given.
\<close>

definition archive_service :: "ustr \<Rightarrow> ustr \<Rightarrow> net" where
  "archive_service first_ts last_ts =
     dead_net\<lparr>requests_get := (\<lambda>s url.
        if url = wayback_base_url @ ''?url=example.com''
        then Inr \<lparr>status_code = 200,
               json_result = Inr (PDict [(''available'', PBool True)])\<rparr>
        else if url = cdx_base_url @ ''?url=example.com&output=json&limit=1&sort=oldest''
        then Inr \<lparr>status_code = 200,
               json_result = Inr (PList
                 [PList [PStr (ustr_of ''urlkey''), PStr (ustr_of ''timestamp'')],
                  PList [PStr (ustr_of ''com,example)/''), PStr first_ts]])\<rparr>
        else if url = cdx_base_url @ ''?url=example.com&output=json&limit=1&sort=latest''
        then Inr \<lparr>status_code = 200,
               json_result = Inr (PList
                 [PList [PStr (ustr_of ''urlkey''), PStr (ustr_of ''timestamp'')],
                  PList [PStr (ustr_of ''com,example)/''), PStr last_ts]])\<rparr>
        else Inr \<lparr>status_code = 200, json_result = Inr (PInt 5)\<rparr>)\<rparr>"

text \<open>The domain was first captured in 2008 and last in 2023.\<close>

definition archive_net :: net where
  "archive_net = archive_service (ustr_of ''20080315120000'') (ustr_of ''20231120000000'')"

text \<open>The same service with a first timestamp that does not begin with a year.\<close>

definition garbled_archive_net :: net where
  "garbled_archive_net =
     archive_service (ustr_of ''abcd0315120000'') (ustr_of ''20231120000000'')"

section \<open>Notions used in the statements\<close>

text \<open>
  What \<open>j\<close> failed WHOIS attempts, each followed by the pause, leave in the history.
\<close>

definition failed_attempts :: "string \<Rightarrow> nat \<Rightarrow> event list" where
  "failed_attempts d j = concat (replicate j [WhoisQuery d, Sleep 2])"

text \<open>A DNS query returned at least one record.\<close>

definition answered :: "exn + rdata list \<Rightarrow> bool" where
  "answered r = (case r of Inl e \<Rightarrow> False | Inr rs \<Rightarrow> rs \<noteq> [])"

text \<open>A source answers a question the same way whenever it is asked.\<close>

definition steady :: "net \<Rightarrow> bool" where
  "steady n \<longleftrightarrow>
     (\<forall>s s' d rr. resolve n s d rr = resolve n s' d rr) \<and>
     (\<forall>s s' d. whois_lookup n s d = whois_lookup n s' d) \<and>
     (\<forall>s s' d t. tls_getpeercert n s d t = tls_getpeercert n s' d t)"

text \<open>
  An entry of a batch result is the outcome of analysing the domain \<open>d\<close> in some state of the
  world: the record returned, or the stub for the exception raised.
\<close>

definition outcome_of :: "net \<Rightarrow> (string \<Rightarrow> analysis io) \<Rightarrow> string \<Rightarrow> entry \<Rightarrow> bool" where
  "outcome_of n analyze d x \<longleftrightarrow>
     (\<exists>si a so. analyze d si = (Inr a, so) \<and> x = Analysis a) \<or>
     (\<exists>si e so. analyze d si = (Inl e, so) \<and>
        x = Failure d (str_exn e) (now_isoformat n so))"

text \<open>
  The year a snapshot timestamp stands for, when it has one: what \<open>int(snapshot[:4])\<close>
  returns, and nothing when the slice or the conversion raises.
\<close>

definition snapshot_year :: "ucd \<Rightarrow> pyval \<Rightarrow> int option" where
  "snapshot_year U v =
     (case py_slice4 v of
        Inl e \<Rightarrow> None
      | Inr y \<Rightarrow> (case py_int U y of Inl e \<Rightarrow> None | Inr i \<Rightarrow> Some i))"

text \<open>
  The years covered of a web archive analysis are what its two timestamps give: last year
  minus first year plus one when both stand for a year, and 0 when one does not.
\<close>

definition years_ok :: "ucd \<Rightarrow> wa_analysis \<Rightarrow> bool" where
  "years_ok U a \<longleftrightarrow>
     years_covered a =
       (case (snapshot_year U (first_snapshot a), snapshot_year U (last_snapshot a)) of
          (Some first_year, Some last_year) \<Rightarrow> last_year - first_year + 1
        | _ \<Rightarrow> 0)"

section \<open>Facts\<close>

subsection \<open>Strings\<close>

lemma str_in_iff: "str_in ind s \<longleftrightarrow> (\<exists>pre suf. s = pre @ ind @ suf)"
proof (induction s)
  case Nil
  then show ?case by auto
next
  case (Cons c cs)
  have "str_in ind cs \<longleftrightarrow> sublist ind cs"
    using Cons by (simp add: sublist_def)
  then have "str_in ind (c # cs) \<longleftrightarrow> sublist ind (c # cs)"
    by (simp add: sublist_Cons_right)
  then show ?case by (simp add: sublist_def)
qed

lemma any_py_iff: "any_py f xs \<longleftrightarrow> (\<exists>x \<in> set xs. f x)"
  by (induction xs) auto

lemma lower_from_append:
  "lower_from U t i (xs @ ys) = lower_from U t i xs @ lower_from U t (i + length xs) ys"
  by (induction xs arbitrary: i) simp_all

lemma lower_from_ascii:
  "\<forall>c \<in> set xs. c < 128 \<Longrightarrow> lower_from U t i xs = map ascii_lower xs"
  by (induction xs arbitrary: i) simp_all

lemma lower_ascii: "\<forall>c \<in> set s. c < 128 \<Longrightarrow> lower U s = map ascii_lower s"
  by (simp add: lower_def lower_from_ascii)

lemma str_in_lower:
  assumes "str_in p s" and "\<forall>c \<in> set p. c < 128"
  shows "str_in (map ascii_lower p) (lower U s)"
proof -
  from assms(1) obtain pre suf where s: "s = pre @ p @ suf"
    by (auto simp: str_in_iff)
  have "lower U s =
      lower_from U s 0 pre @ map ascii_lower p @
      lower_from U s (length pre + length p) suf"
    unfolding lower_def
    by (subst (2) s) (simp add: lower_from_append lower_from_ascii [OF assms(2)])
  then show ?thesis
    unfolding str_in_iff by blast
qed

subsection \<open>The classifier\<close>

text \<open>
  C1. For every raw WHOIS text, \<open>is_registered\<close> holds exactly when some phrase of the
  unavailability list occurs in the lowercased text, and \<open>is_available\<close> exactly when some
  phrase of the availability list occurs there and \<open>is_registered\<close> is false. So the two
  flags are never both true, and both are false for some text. A phrase of a list that
  occurs in the raw text in any mix of upper and lower case sets the flag of its list; in
  particular a text containing \<open>creation date:\<close> and \<open>status: available\<close>, in any case, is
  registered and not available.
\<close>

theorem classifier_flags:
  "(classify_registered U raw \<longleftrightarrow>
      (\<exists>ind \<in> set unavailable_indicators.
         \<exists>pre suf. lower U raw = pre @ ustr_of ind @ suf)) \<and>
   (classify_available U raw \<longleftrightarrow>
      (\<exists>ind \<in> set available_indicators.
         \<exists>pre suf. lower U raw = pre @ ustr_of ind @ suf) \<and>
      \<not> classify_registered U raw) \<and>
   \<not> (classify_available U raw \<and> classify_registered U raw) \<and>
   (\<exists>raw0. \<not> classify_available U raw0 \<and> \<not> classify_registered U raw0) \<and>
   ((\<forall>c \<in> set p. c < 128) \<and> str_in p raw \<and>
    map ascii_lower p \<in> ustr_of ` set unavailable_indicators \<longrightarrow>
      classify_registered U raw) \<and>
   ((\<forall>c \<in> set q. c < 128) \<and> str_in q raw \<and>
    map ascii_lower q \<in> ustr_of ` set available_indicators \<and>
    \<not> classify_registered U raw \<longrightarrow>
      classify_available U raw) \<and>
   ((\<forall>c \<in> set p. c < 128) \<and> (\<forall>c \<in> set q. c < 128) \<and> str_in p raw \<and> str_in q raw \<and>
    map ascii_lower p = ustr_of ''creation date:'' \<and>
    map ascii_lower q = ustr_of ''status: available'' \<longrightarrow>
      classify_registered U raw \<and> \<not> classify_available U raw)"
proof -
  have reg: "classify_registered U raw \<longleftrightarrow>
      (\<exists>ind \<in> set unavailable_indicators.
         \<exists>pre suf. lower U raw = pre @ ustr_of ind @ suf)"
    by (simp add: classify_registered_def classify_def classify_lowered_def Let_def
        any_py_iff str_in_iff)
  have av: "classify_available U raw \<longleftrightarrow>
      (\<exists>ind \<in> set available_indicators.
         \<exists>pre suf. lower U raw = pre @ ustr_of ind @ suf) \<and>
      \<not> classify_registered U raw"
    by (simp add: classify_available_def classify_registered_def classify_def
        classify_lowered_def Let_def any_py_iff str_in_iff)
  have excl: "\<not> (classify_available U raw \<and> classify_registered U raw)"
    using av by blast
  have "\<forall>c \<in> set (ustr_of ''hello''). c < 128"
    by (simp add: ustr_of_def)
  then have "lower U (ustr_of ''hello'') = map ascii_lower (ustr_of ''hello'')"
    by (rule lower_ascii)
  moreover have "classify_lowered (map ascii_lower (ustr_of ''hello'')) = (False, False)"
    by code_simp
  ultimately have none: "\<not> classify_available U (ustr_of ''hello'') \<and>
      \<not> classify_registered U (ustr_of ''hello'')"
    by (simp add: classify_available_def classify_registered_def classify_def)
  have folded_reg: "classify_registered U raw"
    if "\<forall>c \<in> set p. c < 128" "str_in p raw"
      "map ascii_lower p \<in> ustr_of ` set unavailable_indicators" for p
  proof -
    from that(3) obtain ind where ind: "ind \<in> set unavailable_indicators"
        "map ascii_lower p = ustr_of ind"
      by blast
    from str_in_lower [OF that(2,1), of U] ind(2)
    have "\<exists>pre suf. lower U raw = pre @ ustr_of ind @ suf"
      by (simp add: str_in_iff)
    with ind(1) show ?thesis
      unfolding reg by blast
  qed
  have folded_av: "classify_available U raw"
    if "\<forall>c \<in> set q. c < 128" "str_in q raw"
      "map ascii_lower q \<in> ustr_of ` set available_indicators"
      "\<not> classify_registered U raw" for q
  proof -
    from that(3) obtain ind where ind: "ind \<in> set available_indicators"
        "map ascii_lower q = ustr_of ind"
      by blast
    from str_in_lower [OF that(2,1), of U] ind(2)
    have "\<exists>pre suf. lower U raw = pre @ ustr_of ind @ suf"
      by (simp add: str_in_iff)
    with ind(1) that(4) show ?thesis
      unfolding av by blast
  qed
  have both: "classify_registered U raw \<and> \<not> classify_available U raw"
    if "\<forall>c \<in> set p. c < 128" "str_in p raw"
      "map ascii_lower p = ustr_of ''creation date:''" for p
  proof -
    have "''creation date:'' \<in> set unavailable_indicators"
      by (simp add: unavailable_indicators_def)
    then have "map ascii_lower p \<in> ustr_of ` set unavailable_indicators"
      unfolding that(3) by (rule imageI)
    from folded_reg [OF that(1,2) this] excl show ?thesis by blast
  qed
  from reg av excl none folded_reg folded_av both show ?thesis
    by blast
qed

theorem classifier_flags_witness:
  "classify_registered sample_ucd (ustr_of ''Creation Date: 2001-01-01 STATUS: AVAILABLE'') \<and>
   \<not> classify_available sample_ucd (ustr_of ''Creation Date: 2001-01-01 STATUS: AVAILABLE'') \<and>
   classify_available sample_ucd (ustr_of ''No Match For EXAMPLE.COM'') \<and>
   classify_registered sample_ucd (ustr_of ''Status: O'' @ [8490])"
proof -
  let ?raw = "ustr_of ''Creation Date: 2001-01-01 STATUS: AVAILABLE''"
  have h1: "(\<forall>c \<in> set (ustr_of ''Creation Date:''). c < 128) \<and>
      (\<forall>c \<in> set (ustr_of ''STATUS: AVAILABLE''). c < 128) \<and>
      str_in (ustr_of ''Creation Date:'') ?raw \<and> str_in (ustr_of ''STATUS: AVAILABLE'') ?raw \<and>
      map ascii_lower (ustr_of ''Creation Date:'') = ustr_of ''creation date:'' \<and>
      map ascii_lower (ustr_of ''STATUS: AVAILABLE'') = ustr_of ''status: available''"
    by (simp add: ustr_of_def ascii_lower_def)
  have a: "classify_registered sample_ucd ?raw \<and> \<not> classify_available sample_ucd ?raw"
    by (rule classifier_flags [of sample_ucd ?raw "ustr_of ''Creation Date:''"
          "ustr_of ''STATUS: AVAILABLE''", THEN conjunct2, THEN conjunct2, THEN conjunct2,
          THEN conjunct2, THEN conjunct2, THEN conjunct2, THEN mp, OF h1])
  let ?free = "ustr_of ''No Match For EXAMPLE.COM''"
  have ascii: "\<forall>c \<in> set ?free. c < 128"
    by (simp add: ustr_of_def)
  have "fst (classify_lowered (map ascii_lower ?free)) = False"
    by code_simp
  then have notreg: "\<not> classify_registered sample_ucd ?free"
    by (simp add: classify_registered_def classify_def lower_ascii [OF ascii])
  have "''no match for'' \<in> set available_indicators"
    by (simp add: available_indicators_def)
  then have "ustr_of ''no match for'' \<in> ustr_of ` set available_indicators"
    by (rule imageI)
  moreover have "map ascii_lower (ustr_of ''No Match For'') = ustr_of ''no match for''"
    by (simp add: ustr_of_def ascii_lower_def)
  moreover have "(\<forall>c \<in> set (ustr_of ''No Match For''). c < 128) \<and>
      str_in (ustr_of ''No Match For'') ?free"
    by (simp add: ustr_of_def)
  ultimately have h2: "(\<forall>c \<in> set (ustr_of ''No Match For''). c < 128) \<and>
      str_in (ustr_of ''No Match For'') ?free \<and>
      map ascii_lower (ustr_of ''No Match For'') \<in> ustr_of ` set available_indicators \<and>
      \<not> classify_registered sample_ucd ?free"
    using notreg by simp
  have b: "classify_available sample_ucd ?free"
    by (rule classifier_flags [of sample_ucd ?free _ "ustr_of ''No Match For''",
          THEN conjunct2, THEN conjunct2, THEN conjunct2, THEN conjunct2, THEN conjunct2,
          THEN conjunct1, THEN mp, OF h2])
  let ?kelvin = "ustr_of ''Status: O'' @ [8490]"
  have low: "lower sample_ucd ?kelvin = ustr_of ''status: ok''"
    by (simp add: lower_def sample_ucd_def ascii_lower_def ustr_of_def)
  have "''status: ok'' \<in> set unavailable_indicators"
    by (simp add: unavailable_indicators_def)
  then have h3: "\<exists>ind \<in> set unavailable_indicators.
      \<exists>pre suf. lower sample_ucd ?kelvin = pre @ ustr_of ind @ suf"
    unfolding low by (intro bexI [of _ "''status: ok''"] exI [of _ "[]"]) simp_all
  have c: "classify_registered sample_ucd ?kelvin"
    by (rule classifier_flags [of sample_ucd ?kelvin, THEN conjunct1, THEN iffD2, OF h3])
  from a b c show ?thesis by blast
qed

subsection \<open>The quality score\<close>

lemma if_add_weight: "(if b then (x::int) + k else x) = x + (if b then k else 0)"
  by simp

lemma weight_nonneg: "0 \<le> k \<Longrightarrow> 0 \<le> (if b then (k::int) else 0)"
  by simp

lemma score_sum:
  "calculate_quality_score a =
     min ((if dns_get a ns_records then 20 else 0) +
          (if dns_get a a_records then 20 else 0) +
          (if dns_get a mx_records then 15 else 0) +
          (if dns_get a txt_records then 10 else 0) +
          (if whois_get a registrar then 10 else 0) +
          (if whois_get a creation_date then 10 else 0) +
          (if whois_get a name_servers then 10 else 0) +
          (if ssl_get_has_ssl a then 15 else 0)) 100"
  unfolding calculate_quality_score_def Let_def
  by (simp only: if_add_weight add_0)

lemma score_nonneg: "0 \<le> calculate_quality_score a"
  unfolding score_sum
  by (intro min.boundedI add_nonneg_nonneg weight_nonneg) simp_all

lemma score_no_evidence:
  assumes "\<not> dns_get a ns_records" "\<not> dns_get a a_records" "\<not> dns_get a mx_records"
    "\<not> dns_get a txt_records" "\<not> whois_get a registrar" "\<not> whois_get a creation_date"
    "\<not> whois_get a name_servers" "\<not> ssl_get_has_ssl a"
  shows "calculate_quality_score a = 0"
  using assms by (simp add: score_sum)

lemma silent_record_gets:
  "\<not> dns_get silent_record ns_records" "\<not> dns_get silent_record a_records"
  "\<not> dns_get silent_record mx_records" "\<not> dns_get silent_record txt_records"
  "\<not> whois_get silent_record registrar" "\<not> whois_get silent_record creation_date"
  "\<not> whois_get silent_record name_servers" "\<not> ssl_get_has_ssl silent_record"
  by (simp_all add: silent_record_def initial_analysis_def dns_get_def whois_get_def
      ssl_get_has_ssl_def empty_dns_info_def empty_whois_info_def empty_ssl_info_def)

lemma busy_record_gets:
  "dns_get busy_record ns_records" "dns_get busy_record a_records"
  "dns_get busy_record mx_records" "dns_get busy_record txt_records"
  "whois_get busy_record registrar" "whois_get busy_record creation_date"
  "whois_get busy_record name_servers" "ssl_get_has_ssl busy_record"
  by (simp_all add: busy_record_def initial_analysis_def dns_get_def whois_get_def
      ssl_get_has_ssl_def empty_whois_info_def empty_ssl_info_def ustr_of_def)

text \<open>
  C2. The quality score is the sum of the weights of the evidence present (NS 20, A 20,
  MX 15, TXT 10, registrar 10, creation date 10, name servers 10, certificate 15), capped at
  100. It lies between 0 and 100, depends on the eight pieces of evidence only, is 0 when
  none is present and 100 when all are.
\<close>

theorem quality_score_weighted_sum:
  "calculate_quality_score a =
     min ((if dns_get a ns_records then 20 else 0) +
          (if dns_get a a_records then 20 else 0) +
          (if dns_get a mx_records then 15 else 0) +
          (if dns_get a txt_records then 10 else 0) +
          (if whois_get a registrar then 10 else 0) +
          (if whois_get a creation_date then 10 else 0) +
          (if whois_get a name_servers then 10 else 0) +
          (if ssl_get_has_ssl a then 15 else 0)) 100 \<and>
   0 \<le> calculate_quality_score a \<and> calculate_quality_score a \<le> 100 \<and>
   (dns_get a ns_records = dns_get b ns_records \<and>
    dns_get a a_records = dns_get b a_records \<and>
    dns_get a mx_records = dns_get b mx_records \<and>
    dns_get a txt_records = dns_get b txt_records \<and>
    whois_get a registrar = whois_get b registrar \<and>
    whois_get a creation_date = whois_get b creation_date \<and>
    whois_get a name_servers = whois_get b name_servers \<and>
    ssl_get_has_ssl a = ssl_get_has_ssl b \<longrightarrow>
    calculate_quality_score a = calculate_quality_score b) \<and>
   (\<not> dns_get a ns_records \<and> \<not> dns_get a a_records \<and> \<not> dns_get a mx_records \<and>
    \<not> dns_get a txt_records \<and> \<not> whois_get a registrar \<and>
    \<not> whois_get a creation_date \<and> \<not> whois_get a name_servers \<and>
    \<not> ssl_get_has_ssl a \<longrightarrow> calculate_quality_score a = 0) \<and>
   (dns_get a ns_records \<and> dns_get a a_records \<and> dns_get a mx_records \<and>
    dns_get a txt_records \<and> whois_get a registrar \<and> whois_get a creation_date \<and>
    whois_get a name_servers \<and> ssl_get_has_ssl a \<longrightarrow> calculate_quality_score a = 100)"
proof (intro conjI impI)
  show "calculate_quality_score a =
     min ((if dns_get a ns_records then 20 else 0) +
          (if dns_get a a_records then 20 else 0) +
          (if dns_get a mx_records then 15 else 0) +
          (if dns_get a txt_records then 10 else 0) +
          (if whois_get a registrar then 10 else 0) +
          (if whois_get a creation_date then 10 else 0) +
          (if whois_get a name_servers then 10 else 0) +
          (if ssl_get_has_ssl a then 15 else 0)) 100"
    by (rule score_sum)
  show "0 \<le> calculate_quality_score a"
    by (rule score_nonneg)
  show "calculate_quality_score a \<le> 100"
    unfolding score_sum by (rule min.cobounded2)
next
  assume "dns_get a ns_records = dns_get b ns_records \<and>
    dns_get a a_records = dns_get b a_records \<and>
    dns_get a mx_records = dns_get b mx_records \<and>
    dns_get a txt_records = dns_get b txt_records \<and>
    whois_get a registrar = whois_get b registrar \<and>
    whois_get a creation_date = whois_get b creation_date \<and>
    whois_get a name_servers = whois_get b name_servers \<and>
    ssl_get_has_ssl a = ssl_get_has_ssl b"
  then show "calculate_quality_score a = calculate_quality_score b"
    by (simp only: score_sum)
next
  assume "\<not> dns_get a ns_records \<and> \<not> dns_get a a_records \<and> \<not> dns_get a mx_records \<and>
    \<not> dns_get a txt_records \<and> \<not> whois_get a registrar \<and>
    \<not> whois_get a creation_date \<and> \<not> whois_get a name_servers \<and>
    \<not> ssl_get_has_ssl a"
  then show "calculate_quality_score a = 0"
    by (simp add: score_sum)
next
  assume "dns_get a ns_records \<and> dns_get a a_records \<and> dns_get a mx_records \<and>
    dns_get a txt_records \<and> whois_get a registrar \<and> whois_get a creation_date \<and>
    whois_get a name_servers \<and> ssl_get_has_ssl a"
  then show "calculate_quality_score a = 100"
    by (simp add: score_sum)
qed

theorem quality_score_weighted_sum_witness:
  "calculate_quality_score silent_record = 0 \<and>
   calculate_quality_score busy_record = 100 \<and>
   calculate_quality_score (busy_record\<lparr>domain := ''other.example''\<rparr>) = 100"
proof -
  have same: "dns_get busy_record k = dns_get (busy_record\<lparr>domain := ''other.example''\<rparr>) k"
    "whois_get busy_record j = whois_get (busy_record\<lparr>domain := ''other.example''\<rparr>) j"
    "ssl_get_has_ssl busy_record = ssl_get_has_ssl (busy_record\<lparr>domain := ''other.example''\<rparr>)"
    for k j
    by (simp_all add: dns_get_def whois_get_def ssl_get_has_ssl_def)
  from quality_score_weighted_sum [of silent_record silent_record] silent_record_gets
  have "calculate_quality_score silent_record = 0" by blast
  moreover
  from quality_score_weighted_sum [of busy_record "busy_record\<lparr>domain := ''other.example''\<rparr>"]
    busy_record_gets same
  have "calculate_quality_score busy_record = 100 \<and>
    calculate_quality_score busy_record =
      calculate_quality_score (busy_record\<lparr>domain := ''other.example''\<rparr>)"
    by blast
  ultimately show ?thesis by simp
qed

subsection \<open>The recommendations\<close>

lemma recommendations_eq:
  "generate_recommendations a =
     [if is_available' a = Some True then ''Domain is available for registration''
      else ''Domain is already registered''] @
     (if \<not> dns_get a a_records
      then [''No A records found - domain may not be actively used''] else []) @
     (if \<not> ssl_get_has_ssl a
      then [''No SSL certificate found - HTTPS not available''] else []) @
     (if quality_score a < 50 then [''Low quality score - limited web presence'']
      else if quality_score a > 80 then [''High quality score - strong web presence'']
      else [])"
  unfolding generate_recommendations_def Let_def
  by (cases "is_available' a = Some True"; cases "dns_get a a_records";
      cases "ssl_get_has_ssl a"; cases "quality_score a < 50"; cases "quality_score a > 80";
      simp)

text \<open>
  C5. The recommendations are what four rules append, in this order: (1) the available
  advisory when \<open>is_available\<close> is true, else the registered advisory; (2) the no-active-use
  advisory when there are no A records; (3) the no-HTTPS advisory when no certificate is
  present; (4) the limited-presence advisory when the score is below 50, else the
  strong-presence advisory when it is above 80, and nothing for a score from 50 to 80. A
  record with no evidence, scored by the scorer, gets exactly the four advisories
  registered, no active use, no HTTPS, limited presence.
\<close>

theorem generate_recommendations_rules:
  "generate_recommendations a =
     [if is_available' a = Some True then ''Domain is available for registration''
      else ''Domain is already registered''] @
     (if \<not> dns_get a a_records
      then [''No A records found - domain may not be actively used''] else []) @
     (if \<not> ssl_get_has_ssl a
      then [''No SSL certificate found - HTTPS not available''] else []) @
     (if quality_score a < 50 then [''Low quality score - limited web presence'']
      else if quality_score a > 80 then [''High quality score - strong web presence'']
      else []) \<and>
   (50 \<le> quality_score a \<and> quality_score a \<le> 80 \<longrightarrow>
      generate_recommendations a =
        [if is_available' a = Some True then ''Domain is available for registration''
         else ''Domain is already registered''] @
        (if \<not> dns_get a a_records
         then [''No A records found - domain may not be actively used''] else []) @
        (if \<not> ssl_get_has_ssl a
         then [''No SSL certificate found - HTTPS not available''] else [])) \<and>
   (is_available' a \<noteq> Some True \<and> \<not> dns_get a ns_records \<and> \<not> dns_get a a_records \<and>
    \<not> dns_get a mx_records \<and> \<not> dns_get a txt_records \<and> \<not> whois_get a registrar \<and>
    \<not> whois_get a creation_date \<and> \<not> whois_get a name_servers \<and>
    \<not> ssl_get_has_ssl a \<and> quality_score a = calculate_quality_score a \<longrightarrow>
      generate_recommendations a =
        [''Domain is already registered'',
         ''No A records found - domain may not be actively used'',
         ''No SSL certificate found - HTTPS not available'',
         ''Low quality score - limited web presence''])"
proof (intro conjI impI)
  show "generate_recommendations a =
     [if is_available' a = Some True then ''Domain is available for registration''
      else ''Domain is already registered''] @
     (if \<not> dns_get a a_records
      then [''No A records found - domain may not be actively used''] else []) @
     (if \<not> ssl_get_has_ssl a
      then [''No SSL certificate found - HTTPS not available''] else []) @
     (if quality_score a < 50 then [''Low quality score - limited web presence'']
      else if quality_score a > 80 then [''High quality score - strong web presence'']
      else [])"
    by (rule recommendations_eq)
next
  assume "50 \<le> quality_score a \<and> quality_score a \<le> 80"
  then have "\<not> quality_score a < 50" and "\<not> quality_score a > 80"
    by simp_all
  then show "generate_recommendations a =
        [if is_available' a = Some True then ''Domain is available for registration''
         else ''Domain is already registered''] @
        (if \<not> dns_get a a_records
         then [''No A records found - domain may not be actively used''] else []) @
        (if \<not> ssl_get_has_ssl a
         then [''No SSL certificate found - HTTPS not available''] else [])"
    unfolding recommendations_eq by simp
next
  assume h: "is_available' a \<noteq> Some True \<and> \<not> dns_get a ns_records \<and>
    \<not> dns_get a a_records \<and> \<not> dns_get a mx_records \<and> \<not> dns_get a txt_records \<and>
    \<not> whois_get a registrar \<and> \<not> whois_get a creation_date \<and>
    \<not> whois_get a name_servers \<and> \<not> ssl_get_has_ssl a \<and>
    quality_score a = calculate_quality_score a"
  then have "calculate_quality_score a = 0"
    by (intro score_no_evidence) simp_all
  with h have "quality_score a < 50" by simp
  with h show "generate_recommendations a =
        [''Domain is already registered'',
         ''No A records found - domain may not be actively used'',
         ''No SSL certificate found - HTTPS not available'',
         ''Low quality score - limited web presence'']"
    unfolding recommendations_eq by simp
qed

theorem generate_recommendations_rules_witness:
  "generate_recommendations silent_record =
     [''Domain is already registered'',
      ''No A records found - domain may not be actively used'',
      ''No SSL certificate found - HTTPS not available'',
      ''Low quality score - limited web presence''] \<and>
   generate_recommendations (busy_record\<lparr>quality_score := 60\<rparr>) =
     [''Domain is already registered'']"
proof -
  have avail: "is_available' silent_record \<noteq> Some True"
    by (simp add: silent_record_def initial_analysis_def)
  have "quality_score silent_record = 0"
    by (simp add: silent_record_def initial_analysis_def)
  then have stored: "quality_score silent_record = calculate_quality_score silent_record"
    using score_no_evidence [OF silent_record_gets] by simp
  from generate_recommendations_rules [of silent_record] avail silent_record_gets stored
  have first: "generate_recommendations silent_record =
     [''Domain is already registered'',
      ''No A records found - domain may not be actively used'',
      ''No SSL certificate found - HTTPS not available'',
      ''Low quality score - limited web presence'']"
    by blast
  have mid: "50 \<le> quality_score (busy_record\<lparr>quality_score := 60\<rparr>) \<and>
      quality_score (busy_record\<lparr>quality_score := 60\<rparr>) \<le> 80"
    by simp
  have facts: "is_available' (busy_record\<lparr>quality_score := 60\<rparr>) \<noteq> Some True"
    "dns_get (busy_record\<lparr>quality_score := 60\<rparr>) a_records"
    "ssl_get_has_ssl (busy_record\<lparr>quality_score := 60\<rparr>)"
    by (simp_all add: busy_record_def initial_analysis_def dns_get_def ssl_get_has_ssl_def
        empty_ssl_info_def)
  from generate_recommendations_rules [of "busy_record\<lparr>quality_score := 60\<rparr>"] mid
  have "generate_recommendations (busy_record\<lparr>quality_score := 60\<rparr>) =
        [if is_available' (busy_record\<lparr>quality_score := 60\<rparr>) = Some True
         then ''Domain is available for registration''
         else ''Domain is already registered''] @
        (if \<not> dns_get (busy_record\<lparr>quality_score := 60\<rparr>) a_records
         then [''No A records found - domain may not be actively used''] else []) @
        (if \<not> ssl_get_has_ssl (busy_record\<lparr>quality_score := 60\<rparr>)
         then [''No SSL certificate found - HTTPS not available''] else [])"
    by blast
  with facts have "generate_recommendations (busy_record\<lparr>quality_score := 60\<rparr>) =
     [''Domain is already registered'']"
    by simp
  with first show ?thesis by simp
qed

subsection \<open>The WHOIS fetcher\<close>

lemma failed_attempts_0 [simp]: "failed_attempts d 0 = []"
  by (simp add: failed_attempts_def)

lemma failed_attempts_Suc:
  "failed_attempts d (Suc j) = WhoisQuery d # Sleep 2 # failed_attempts d j"
  by (simp add: failed_attempts_def)

lemma whois_attempts_exhaust:
  assumes "\<forall>i < m - k. \<exists>e. whois_lookup n (s @ failed_attempts d i) d = Inl e"
    and "m = nat mr"
  shows "whois_attempts n d mr (map int [k..<m]) info s =
           ((None, info),
            s @ (if m \<le> k then [] else failed_attempts d (m - k - 1) @ [WhoisQuery d]))"
  using assms(1)
proof (induction "m - k" arbitrary: k s)
  case 0
  then show ?case by simp
next
  case (Suc x)
  then have km: "k < m" by simp
  then have list: "[k..<m] = k # [Suc k..<m]"
    by (simp add: upt_conv_Cons)
  from Suc.prems km obtain e where e: "whois_lookup n s d = Inl e"
    by (metis append_Nil2 failed_attempts_0 zero_less_diff)
  show ?case
  proof (cases "Suc k < m")
    case True
    then have lt: "int k < mr - 1" using assms(2) by simp
    have x: "x = m - Suc k" using Suc.hyps(2) by simp
    have prem: "\<forall>i < m - Suc k.
        \<exists>e. whois_lookup n ((s @ [WhoisQuery d, Sleep 2]) @ failed_attempts d i) d = Inl e"
    proof (intro allI impI)
      fix i assume "i < m - Suc k"
      then have "Suc i < m - k" by simp
      with Suc.prems obtain e' where
        "whois_lookup n (s @ failed_attempts d (Suc i)) d = Inl e'" by blast
      then show "\<exists>e. whois_lookup n ((s @ [WhoisQuery d, Sleep 2]) @ failed_attempts d i) d
          = Inl e"
        by (simp add: failed_attempts_Suc)
    qed
    from Suc.hyps(1) [OF x prem] True
    have ih: "whois_attempts n d mr (map int [Suc k..<m]) info (s @ [WhoisQuery d, Sleep 2]) =
        ((None, info),
         (s @ [WhoisQuery d, Sleep 2]) @ failed_attempts d (m - Suc k - 1) @ [WhoisQuery d])"
      by simp
    have "failed_attempts d (m - Suc k) = failed_attempts d (Suc (m - Suc (Suc k)))"
      using True by (simp only: Suc_diff_Suc)
    then have tail: "failed_attempts d (m - Suc k) =
        WhoisQuery d # Sleep 2 # failed_attempts d (m - Suc (Suc k))"
      by (simp only: failed_attempts_Suc)
    show ?thesis
      using e lt ih km
      by (simp add: list whois_whois_def time_sleep_def tail)
  next
    case False
    with km have eq: "Suc k = m" by simp
    then have nlt: "\<not> int k < mr - 1" using assms(2) by auto
    from eq have rest: "[Suc k..<m] = []" by simp
    from eq have z: "m - Suc k = 0" by simp
    show ?thesis
      using e nlt km by (simp add: list rest whois_whois_def z)
  qed
qed

lemma whois_attempts_success:
  assumes "j < m - k"
    and "\<forall>i < j. \<exists>e. whois_lookup n (s @ failed_attempts d i) d = Inl e"
    and "whois_lookup n (s @ failed_attempts d j) d = Inr w"
    and "m = nat mr"
  shows "whois_attempts n d mr (map int [k..<m]) info s =
           ((None, if w_truthy w then fill_whois n info w else info),
            s @ failed_attempts d j @ [WhoisQuery d])"
  using assms(1-3)
proof (induction j arbitrary: k s)
  case 0
  then have km: "k < m" by simp
  then have list: "[k..<m] = k # [Suc k..<m]"
    by (simp add: upt_conv_Cons)
  from 0 show ?case
    by (simp add: list whois_whois_def)
next
  case (Suc j)
  then have km: "Suc k < m" by simp
  then have list: "[k..<m] = k # [Suc k..<m]"
    by (simp add: upt_conv_Cons)
  from km have lt: "int k < mr - 1" using assms(4) by simp
  from Suc.prems(2) obtain e where e: "whois_lookup n s d = Inl e"
    by (metis append_Nil2 failed_attempts_0 zero_less_Suc)
  have p1: "j < m - Suc k" using Suc.prems(1) by simp
  have p2: "\<forall>i < j.
      \<exists>e. whois_lookup n ((s @ [WhoisQuery d, Sleep 2]) @ failed_attempts d i) d = Inl e"
  proof (intro allI impI)
    fix i assume "i < j"
    then have "Suc i < Suc j" by simp
    with Suc.prems(2) obtain e' where
      "whois_lookup n (s @ failed_attempts d (Suc i)) d = Inl e'" by blast
    then show "\<exists>e. whois_lookup n ((s @ [WhoisQuery d, Sleep 2]) @ failed_attempts d i) d
        = Inl e"
      by (simp add: failed_attempts_Suc)
  qed
  have p3: "whois_lookup n ((s @ [WhoisQuery d, Sleep 2]) @ failed_attempts d j) d = Inr w"
    using Suc.prems(3) by (simp add: failed_attempts_Suc)
  from Suc.IH [OF p1 p2 p3]
  show ?case
    using e lt by (simp add: list whois_whois_def time_sleep_def failed_attempts_Suc)
qed

lemma count_failed_attempts:
  "length (filter (\<lambda>ev. ev = WhoisQuery d) (failed_attempts d j)) = j"
  by (induction j) (simp_all add: failed_attempts_Suc)

lemma check_whois_info_exhaust:
  assumes "\<forall>i < nat mr. \<exists>e. whois_lookup n (s @ failed_attempts d i) d = Inl e"
  shows "check_whois_info n d mr s =
           (Inr empty_whois_info,
            s @ (if nat mr = 0 then [] else failed_attempts d (nat mr - 1) @ [WhoisQuery d]))"
proof -
  from assms have "\<forall>i < nat mr - 0. \<exists>e. whois_lookup n (s @ failed_attempts d i) d = Inl e"
    by simp
  from whois_attempts_exhaust [OF this refl, of empty_whois_info]
  show ?thesis
    by (simp add: check_whois_info_def run_fn_def range_py_def)
qed

lemma check_whois_info_success:
  assumes "j < nat mr"
    and "\<forall>i < j. \<exists>e. whois_lookup n (s @ failed_attempts d i) d = Inl e"
    and "whois_lookup n (s @ failed_attempts d j) d = Inr w"
  shows "check_whois_info n d mr s =
           (Inr (if w_truthy w then fill_whois n empty_whois_info w else empty_whois_info),
            s @ failed_attempts d j @ [WhoisQuery d])"
proof -
  from assms(1) have "j < nat mr - 0" by simp
  from whois_attempts_success [OF this assms(2,3) refl, of empty_whois_info]
  show ?thesis
    by (simp add: check_whois_info_def run_fn_def range_py_def)
qed

lemma check_whois_info_bounded:
  "\<exists>info tr. check_whois_info n d mr s = (Inr info, s @ tr) \<and>
     length (filter (\<lambda>ev. ev = WhoisQuery d) tr) \<le> nat mr"
proof (cases "\<forall>i < nat mr. \<exists>e. whois_lookup n (s @ failed_attempts d i) d = Inl e")
  case True
  from check_whois_info_exhaust [OF True] show ?thesis
    by (cases "nat mr = 0") (auto simp: count_failed_attempts)
next
  case False
  then have "\<exists>j. j < nat mr \<and> (\<nexists>e. whois_lookup n (s @ failed_attempts d j) d = Inl e)"
    by blast
  then obtain j where j: "j < nat mr"
      "\<nexists>e. whois_lookup n (s @ failed_attempts d j) d = Inl e"
      "\<forall>i < j. \<not> (i < nat mr \<and> (\<nexists>e. whois_lookup n (s @ failed_attempts d i) d = Inl e))"
    using exists_least_iff [of "\<lambda>j. j < nat mr \<and>
        (\<nexists>e. whois_lookup n (s @ failed_attempts d j) d = Inl e)"]
    by blast
  from j(2) obtain w where w: "whois_lookup n (s @ failed_attempts d j) d = Inr w"
    by (cases "whois_lookup n (s @ failed_attempts d j) d") auto
  from j(1,3) have before: "\<forall>i < j. \<exists>e. whois_lookup n (s @ failed_attempts d i) d = Inl e"
    by (meson less_trans)
  from check_whois_info_success [OF j(1) before w] j(1) show ?thesis
    by (auto simp: count_failed_attempts)
qed

text \<open>
  C6. The WHOIS fetcher asks at most \<open>max_retries\<close> times (3 when the caller gives no
  number), stops at the first attempt that returns, pauses 2 time units after each failed
  attempt that is followed by another, and when every attempt fails returns the default
  structure, in which \<open>is_registered\<close> and \<open>is_available\<close> are false; it never raises.
\<close>

theorem check_whois_info_retries:
  "((\<forall>i < nat mr. \<exists>e. whois_lookup n (s @ failed_attempts d i) d = Inl e) \<longrightarrow>
      check_whois_info n d mr s =
        (Inr empty_whois_info,
         s @ (if nat mr = 0 then [] else failed_attempts d (nat mr - 1) @ [WhoisQuery d])) \<and>
      \<not> is_registered empty_whois_info \<and> \<not> is_available empty_whois_info) \<and>
   (j < nat mr \<and> (\<forall>i < j. \<exists>e. whois_lookup n (s @ failed_attempts d i) d = Inl e) \<and>
    whois_lookup n (s @ failed_attempts d j) d = Inr w \<longrightarrow>
      check_whois_info n d mr s =
        (Inr (if w_truthy w then fill_whois n empty_whois_info w else empty_whois_info),
         s @ failed_attempts d j @ [WhoisQuery d])) \<and>
   (\<exists>info tr. check_whois_info n d mr s = (Inr info, s @ tr) \<and>
      length (filter (\<lambda>ev. ev = WhoisQuery d) tr) \<le> nat mr) \<and>
   m_check_whois_info (scanner n) d = check_whois_info n d 3"
proof (intro conjI impI)
  assume "\<forall>i < nat mr. \<exists>e. whois_lookup n (s @ failed_attempts d i) d = Inl e"
  then show "check_whois_info n d mr s =
        (Inr empty_whois_info,
         s @ (if nat mr = 0 then [] else failed_attempts d (nat mr - 1) @ [WhoisQuery d]))"
    by (rule check_whois_info_exhaust)
next
  show "\<not> is_registered empty_whois_info" "\<not> is_available empty_whois_info"
    by (simp_all add: empty_whois_info_def)
next
  assume "j < nat mr \<and> (\<forall>i < j. \<exists>e. whois_lookup n (s @ failed_attempts d i) d = Inl e) \<and>
    whois_lookup n (s @ failed_attempts d j) d = Inr w"
  then show "check_whois_info n d mr s =
        (Inr (if w_truthy w then fill_whois n empty_whois_info w else empty_whois_info),
         s @ failed_attempts d j @ [WhoisQuery d])"
    using check_whois_info_success by blast
next
  show "\<exists>info tr. check_whois_info n d mr s = (Inr info, s @ tr) \<and>
      length (filter (\<lambda>ev. ev = WhoisQuery d) tr) \<le> nat mr"
    by (rule check_whois_info_bounded)
next
  show "m_check_whois_info (scanner n) d = check_whois_info n d 3"
    by (simp add: scanner_def)
qed

theorem check_whois_info_retries_witness:
  "check_whois_info dead_net ''example.com'' 3 [] =
     (Inr empty_whois_info,
      [WhoisQuery ''example.com'', Sleep 2, WhoisQuery ''example.com'', Sleep 2,
       WhoisQuery ''example.com'']) \<and>
   check_whois_info recovering_net ''example.com'' 3 [] =
     (Inr (fill_whois recovering_net empty_whois_info example_entry),
      [WhoisQuery ''example.com'', Sleep 2, WhoisQuery ''example.com''])"
proof -
  have two: "failed_attempts ''example.com'' 2 =
      [WhoisQuery ''example.com'', Sleep 2, WhoisQuery ''example.com'', Sleep 2]"
    and one: "failed_attempts ''example.com'' 1 = [WhoisQuery ''example.com'', Sleep 2]"
    by (simp_all add: failed_attempts_def numeral_2_eq_2)
  have one': "failed_attempts ''example.com'' (Suc 0) = [WhoisQuery ''example.com'', Sleep 2]"
    by (simp add: failed_attempts_def)
  have h1: "\<forall>i < nat 3.
      \<exists>e. whois_lookup dead_net ([] @ failed_attempts ''example.com'' i) ''example.com'' = Inl e"
    by (simp add: dead_net_def)
  have n3: "nat 3 - 1 = 2" by simp
  from check_whois_info_retries [of 3 dead_net "[]" "''example.com''"] h1
  have a: "check_whois_info dead_net ''example.com'' 3 [] =
     (Inr empty_whois_info,
      [WhoisQuery ''example.com'', Sleep 2, WhoisQuery ''example.com'', Sleep 2,
       WhoisQuery ''example.com''])"
    by (simp add: n3 two)
  have h2: "(1::nat) < nat 3"
    "\<forall>i < (1::nat). \<exists>e. whois_lookup recovering_net
        ([] @ failed_attempts ''example.com'' i) ''example.com'' = Inl e"
    "whois_lookup recovering_net ([] @ failed_attempts ''example.com'' 1) ''example.com'' =
       Inr example_entry"
    by (simp_all add: recovering_net_def one')
  have truthy: "w_truthy example_entry"
    by (simp add: example_entry_def)
  from check_whois_info_retries [of 3 recovering_net "[]" "''example.com''" 1
      example_entry] h2
  have b: "check_whois_info recovering_net ''example.com'' 3 [] =
     (Inr (fill_whois recovering_net empty_whois_info example_entry),
      [WhoisQuery ''example.com'', Sleep 2, WhoisQuery ''example.com''])"
    by (simp add: one' truthy)
  from a b show ?thesis by simp
qed

subsection \<open>Statements and fetchers\<close>

lemma seq_append:
  "seq (xs @ ys) r s =
     (case seq xs r s of
        ((Some e, r'), s') \<Rightarrow> ((Some e, r'), s')
      | ((None, r'), s') \<Rightarrow> seq ys r' s')"
  by (induction xs arbitrary: r s) (auto split: prod.splits option.splits)

lemma seq_preserves:
  assumes "\<forall>st \<in> set sts. \<forall>r s x r' s'. st r s = ((x, r'), s') \<longrightarrow> f r' = f r"
    and "seq sts r s = ((x, r'), s')"
  shows "f r' = f r"
  using assms
proof (induction sts arbitrary: r s)
  case Nil
  then show ?case by simp
next
  case (Cons st sts)
  obtain y r1 s1 where st: "st r s = ((y, r1), s1)"
    by (metis surj_pair)
  from Cons.prems(1) have "\<forall>r s x r' s'. st r s = ((x, r'), s') \<longrightarrow> f r' = f r"
    by simp
  with st have f1: "f r1 = f r"
    by blast
  from Cons.prems(1) have rest:
    "\<forall>st \<in> set sts. \<forall>r s x r' s'. st r s = ((x, r'), s') \<longrightarrow> f r' = f r"
    by simp
  show ?case
  proof (cases y)
    case None
    with st Cons.prems(2) have "seq sts r1 s1 = ((x, r'), s')" by simp
    from Cons.IH [OF rest this] have "f r' = f r1" .
    with f1 show ?thesis by simp
  next
    case (Some e)
    with st Cons.prems(2) have "r' = r1" by simp
    with f1 show ?thesis by simp
  qed
qed

lemma assign_preserves:
  assumes "assign expr store r s = ((x, r'), s')" and "\<And>v. f (store r v) = f r"
  shows "f r' = f r"
  using assms by (auto simp: assign_def split: prod.splits sum.splits)

lemma run_fn_try_pass:
  "\<exists>v s'. run_fn (try_stmt body (\<lambda>e. pass)) r0 result s = (Inr v, s')"
  by (auto simp: run_fn_def try_stmt_def pass_def split: prod.splits option.splits)

lemma check_dns_records_returns: "\<exists>v s'. check_dns_records n d s = (Inr v, s')"
  unfolding check_dns_records_def by (rule run_fn_try_pass)

lemma check_ssl_certificate_returns: "\<exists>v s'. check_ssl_certificate n d t s = (Inr v, s')"
  unfolding check_ssl_certificate_def by (rule run_fn_try_pass)

lemma check_domain_signatures_returns: "\<exists>v s'. check_domain_signatures n d s = (Inr v, s')"
  unfolding check_domain_signatures_def by (rule run_fn_try_pass)

lemma check_whois_info_returns: "\<exists>v s'. check_whois_info n d mr s = (Inr v, s')"
  using check_whois_info_bounded [of n d mr s] by blast

lemma try_pass_assign:
  "try_stmt (assign (\<lambda>_. expr) store) (\<lambda>_. pass) r s =
     (case expr s of
        (Inl e, s') \<Rightarrow> ((None, r), s')
      | (Inr v, s') \<Rightarrow> ((None, store r v), s'))"
  by (simp add: try_stmt_def assign_def pass_def split: prod.splits sum.splits)

lemma check_dns_records_eq:
  "check_dns_records n d s =
     (Inr \<lparr>ns_records = (case resolve n s d NS of Inl e \<Rightarrow> [] | Inr rs \<Rightarrow> map rd_str rs),
           a_records = (case resolve n (s @ [DnsQuery d NS]) d A of
                          Inl e \<Rightarrow> [] | Inr rs \<Rightarrow> map rd_str rs),
           mx_records = (case resolve n (s @ [DnsQuery d NS, DnsQuery d A]) d MX of
                           Inl e \<Rightarrow> [] | Inr rs \<Rightarrow> map mx_text rs),
           txt_records = (case resolve n (s @ [DnsQuery d NS, DnsQuery d A, DnsQuery d MX]) d TXT
                          of Inl e \<Rightarrow> [] | Inr rs \<Rightarrow> map rd_str rs),
           cname_records =
             (case resolve n (s @ [DnsQuery d NS, DnsQuery d A, DnsQuery d MX, DnsQuery d TXT])
                     d CNAME
              of Inl e \<Rightarrow> [] | Inr rs \<Rightarrow> map rd_str rs)\<rparr>,
      s @ [DnsQuery d NS, DnsQuery d A, DnsQuery d MX, DnsQuery d TXT, DnsQuery d CNAME])"
  unfolding check_dns_records_def run_fn_def
  by (simp add: try_stmt_def [of "seq _"] try_pass_assign dns_resolve_def pass_def
      empty_dns_info_def split: sum.splits)

lemma check_ssl_certificate_eq:
  "check_ssl_certificate n d t s =
     (Inr (case tls_getpeercert n s d t of
             Inl e \<Rightarrow> empty_ssl_info
           | Inr None \<Rightarrow> empty_ssl_info
           | Inr (Some crt) \<Rightarrow>
               empty_ssl_info\<lparr>has_ssl := True, issuer := cert_issuer crt,
                 subject := cert_subject crt, not_before := cert_notBefore crt,
                 not_after := cert_notAfter crt, serial_number := cert_serialNumber crt,
                 version := cert_version crt\<rparr>),
      s @ [TlsConnect d t])"
  unfolding check_ssl_certificate_def run_fn_def
  by (simp add: try_pass_assign tls_connect_def split: sum.splits option.splits)

lemma check_domain_signatures_eq:
  assumes "check_whois_info n d 3 (s @ [DnsQuery d NS, DnsQuery d A, DnsQuery d MX]) =
             (Inr wi, sw)"
    and "check_ssl_certificate n d 5 sw = (Inr ci, sc)"
  shows "check_domain_signatures n d s =
     (Inr ((if answered (resolve n s d NS) then [''DNS_NS''] else []) @
           (if answered (resolve n (s @ [DnsQuery d NS]) d A) then [''DNS_A''] else []) @
           (if answered (resolve n (s @ [DnsQuery d NS, DnsQuery d A]) d MX)
            then [''DNS_MX''] else []) @
           (if is_registered wi then [''WHOIS''] else []) @
           (if has_ssl ci then [''SSL''] else [])),
      sc)"
  unfolding check_domain_signatures_def run_fn_def
  using assms
  by (simp add: try_stmt_def [of "seq _"] try_pass_assign dns_resolve_def pass_def
      assign_def answered_def split: sum.splits)

subsection \<open>The orchestrator\<close>

lemma assign_keeps:
  assumes "\<And>r v. f (store r v) = f r"
  shows "\<forall>r s x r' s'. assign expr store r s = ((x, r'), s') \<longrightarrow> f r' = f r"
  using assms by (auto simp: assign_def split: prod.splits sum.splits)

lemma analyze_steps_keep:
  assumes "seq (analyze_steps M d) a s = ((x, a'), s')"
  shows "domain a' = domain a \<and> timestamp a' = timestamp a \<and> error a' = error a"
proof -
  have "list_all (\<lambda>st. \<forall>r s x r' s'. st r s = ((x, r'), s') \<longrightarrow>
      (domain r', timestamp r', error r') = (domain r, timestamp r, error r))
      (analyze_steps M d)"
    unfolding analyze_steps_def list.pred_inject
    by (intro conjI assign_keeps TrueI) simp_all
  then have "\<forall>st \<in> set (analyze_steps M d). \<forall>r s x r' s'. st r s = ((x, r'), s') \<longrightarrow>
      (domain r', timestamp r', error r') = (domain r, timestamp r, error r)"
    by (simp only: list_all_iff)
  from seq_preserves [OF this assms] show ?thesis by simp
qed

lemma take_fetches:
  "take 4 (analyze_steps M d) =
     [assign (\<lambda>_. m_check_dns_records M d) (\<lambda>a v. a\<lparr>dns_records := Some v\<rparr>),
      assign (\<lambda>_. m_check_whois_info M d) (\<lambda>a v. a\<lparr>whois_info := Some v\<rparr>),
      assign (\<lambda>_. m_check_ssl_certificate M d) (\<lambda>a v. a\<lparr>ssl_info := Some v\<rparr>),
      assign (\<lambda>_. m_check_domain_signatures M d) (\<lambda>a v. a\<lparr>signatures := v\<rparr>)]"
  by (simp add: analyze_steps_def)

lemma analyze_fetches_keep:
  assumes "seq (take 4 (analyze_steps M d)) a s = ((x, a'), s')"
  shows "is_available' a' = is_available' a \<and> quality_score a' = quality_score a \<and>
    recommendations a' = recommendations a \<and> error a' = error a"
proof -
  have "list_all (\<lambda>st. \<forall>r s x r' s'. st r s = ((x, r'), s') \<longrightarrow>
      (is_available' r', quality_score r', recommendations r', error r') =
      (is_available' r, quality_score r, recommendations r, error r))
      (take 4 (analyze_steps M d))"
    unfolding take_fetches list.pred_inject
    by (intro conjI assign_keeps TrueI) simp_all
  then have "\<forall>st \<in> set (take 4 (analyze_steps M d)).
      \<forall>r s x r' s'. st r s = ((x, r'), s') \<longrightarrow>
      (is_available' r', quality_score r', recommendations r', error r') =
      (is_available' r, quality_score r, recommendations r, error r)"
    by (simp only: list_all_iff)
  from seq_preserves [OF this assms] show ?thesis by simp
qed

lemma analyze_domain_with_eq:
  "analyze_domain_with n M d s =
     (case seq (analyze_steps M d) (initial_analysis d (now_isoformat n s)) (s @ [ClockRead]) of
        ((None, a), s') \<Rightarrow> (Inr a, s')
      | ((Some e, a), s') \<Rightarrow> (Inr (a\<lparr>error := Some (str_exn e)\<rparr>), s'))"
  by (simp add: analyze_domain_with_def bind_io_def datetime_now_def run_fn_def try_stmt_def
      assign_def ret_def split: prod.splits option.splits)

lemma analyze_domain_with_returns:
  "\<exists>a s'. analyze_domain_with n M d s = (Inr a, s') \<and> domain a = d \<and>
     timestamp a = now_isoformat n s"
proof -
  obtain x a s' where run:
    "seq (analyze_steps M d) (initial_analysis d (now_isoformat n s)) (s @ [ClockRead]) =
       ((x, a), s')"
    by (metis surj_pair)
  from analyze_steps_keep [OF run]
  have "domain a = d" "timestamp a = now_isoformat n s"
    by (simp_all add: initial_analysis_def)
  with run show ?thesis
    by (cases x) (simp_all add: analyze_domain_with_eq)
qed

lemma scanner_steps_complete:
  "\<exists>a s'. seq (analyze_steps (scanner n) d) a0 s = ((None, a), s')"
proof -
  obtain v1 s1 where 1: "check_dns_records n d s = (Inr v1, s1)"
    using check_dns_records_returns by blast
  obtain v2 s2 where 2: "check_whois_info n d 3 s1 = (Inr v2, s2)"
    using check_whois_info_returns by blast
  obtain v3 s3 where 3: "check_ssl_certificate n d 5 s2 = (Inr v3, s3)"
    using check_ssl_certificate_returns by blast
  obtain v4 s4 where 4: "check_domain_signatures n d s3 = (Inr v4, s4)"
    using check_domain_signatures_returns by blast
  have sel: "m_check_dns_records (scanner n) = check_dns_records n"
    "m_check_whois_info (scanner n) = (\<lambda>dname. check_whois_info n dname 3)"
    "m_check_ssl_certificate (scanner n) = (\<lambda>dname. check_ssl_certificate n dname 5)"
    "m_check_domain_signatures (scanner n) = check_domain_signatures n"
    "m_calculate_quality_score (scanner n) = (\<lambda>a. ret (calculate_quality_score a))"
    "m_generate_recommendations (scanner n) = (\<lambda>a. ret (generate_recommendations a))"
    by (simp_all add: scanner_def)
  show ?thesis
    unfolding analyze_steps_def sel
    using 1 2 3 4
    by (simp add: assign_def whois_is_available_def ret_def)
qed

lemma analyze_domain_no_error:
  "\<exists>a s'. analyze_domain n d s = (Inr a, s') \<and> error a = None"
proof -
  obtain a s' where run:
    "seq (analyze_steps (scanner n) d) (initial_analysis d (now_isoformat n s))
       (s @ [ClockRead]) = ((None, a), s')"
    using scanner_steps_complete by blast
  from analyze_steps_keep [OF run] have "error a = None"
    by (simp add: initial_analysis_def)
  with run show ?thesis
    by (simp add: analyze_domain_def analyze_domain_with_eq)
qed

subsection \<open>The scanner on a dead network\<close>

lemma dead_dns:
  "check_dns_records dead_net d s =
     (Inr empty_dns_info,
      s @ [DnsQuery d NS, DnsQuery d A, DnsQuery d MX, DnsQuery d TXT, DnsQuery d CNAME])"
  by (simp add: check_dns_records_eq dead_net_def empty_dns_info_def)

lemma dead_whois:
  "check_whois_info dead_net d 3 s =
     (Inr empty_whois_info,
      s @ [WhoisQuery d, Sleep 2, WhoisQuery d, Sleep 2, WhoisQuery d])"
proof -
  have "\<forall>i < nat 3. \<exists>e. whois_lookup dead_net (s @ failed_attempts d i) d = Inl e"
    by (simp add: dead_net_def)
  from check_whois_info_exhaust [OF this] show ?thesis
    by (simp add: failed_attempts_def numeral_2_eq_2)
qed

lemma dead_ssl:
  "check_ssl_certificate dead_net d t s = (Inr empty_ssl_info, s @ [TlsConnect d t])"
  by (simp add: check_ssl_certificate_eq dead_net_def)

lemma dead_signatures:
  "check_domain_signatures dead_net d s =
     (Inr [],
      s @ [DnsQuery d NS, DnsQuery d A, DnsQuery d MX, WhoisQuery d, Sleep 2, WhoisQuery d,
           Sleep 2, WhoisQuery d, TlsConnect d 5])"
  using check_domain_signatures_eq [OF dead_whois dead_ssl, of d s]
  by (simp add: dead_net_def answered_def empty_whois_info_def empty_ssl_info_def)

lemma scanner_sel:
  "m_check_dns_records (scanner n) = check_dns_records n"
  "m_check_whois_info (scanner n) = (\<lambda>dname. check_whois_info n dname 3)"
  "m_check_ssl_certificate (scanner n) = (\<lambda>dname. check_ssl_certificate n dname 5)"
  "m_check_domain_signatures (scanner n) = check_domain_signatures n"
  "m_calculate_quality_score (scanner n) = (\<lambda>a. ret (calculate_quality_score a))"
  "m_generate_recommendations (scanner n) = (\<lambda>a. ret (generate_recommendations a))"
  by (simp_all add: scanner_def)

lemma dead_steps:
  "seq (analyze_steps (scanner dead_net) ''example.com'')
     (initial_analysis ''example.com'' ''2024-01-01T00:00:00'') [ClockRead] =
   ((None, silent_result), dead_history ''example.com'')"
proof -
  let ?a = "(initial_analysis ''example.com'' ''2024-01-01T00:00:00'')
       \<lparr>dns_records := Some empty_dns_info, whois_info := Some empty_whois_info,
        ssl_info := Some empty_ssl_info, signatures := [], is_available' := Some False\<rparr>"
  have a: "?a = silent_record"
    by (simp add: silent_record_def initial_analysis_def)
  have score: "calculate_quality_score silent_record = 0"
    by (rule score_no_evidence [OF silent_record_gets])
  have recs: "generate_recommendations (silent_record\<lparr>quality_score := 0\<rparr>) =
      [''Domain is already registered'',
        ''No A records found - domain may not be actively used'',
        ''No SSL certificate found - HTTPS not available'',
        ''Low quality score - limited web presence'']"
    by (simp add: recommendations_eq dns_get_def ssl_get_has_ssl_def silent_record_def
        initial_analysis_def empty_dns_info_def empty_ssl_info_def)
  have q: "silent_record\<lparr>quality_score := 0\<rparr> = silent_record"
    by (simp add: silent_record_def initial_analysis_def)
  have "seq (analyze_steps (scanner dead_net) ''example.com'')
     (initial_analysis ''example.com'' ''2024-01-01T00:00:00'') [ClockRead] =
   ((None, ?a\<lparr>quality_score := calculate_quality_score ?a,
       recommendations := generate_recommendations
          (?a\<lparr>quality_score := calculate_quality_score ?a\<rparr>)\<rparr>), dead_history ''example.com'')"
    unfolding analyze_steps_def scanner_sel
    by (simp add: assign_def dead_dns dead_whois dead_ssl dead_signatures
        whois_is_available_def ret_def dead_history_def empty_whois_info_def)
  moreover have "generate_recommendations silent_record =
      [''Domain is already registered'',
        ''No A records found - domain may not be actively used'',
        ''No SSL certificate found - HTTPS not available'',
        ''Low quality score - limited web presence'']"
    using recs by (simp only: q)
  ultimately show ?thesis
    unfolding a score q silent_result_def by simp
qed

subsection \<open>Faults in the orchestrator\<close>

text \<open>
  C3. \<open>analyze_domain\<close> never raises to its caller, whatever its steps do: it returns a
  record for the domain asked. A fault of a step is caught and its text recorded under
  \<open>error\<close> in the record as filled so far; without a fault \<open>error\<close> stays absent. The
  fetchers of the scanner itself always return: the DNS, WHOIS and TLS fetchers give their
  empty defaults when their source faults, so the scanner's own analysis never has
  \<open>error\<close> set.
\<close>

theorem analyze_domain_never_raises:
  "(\<exists>a s'. analyze_domain_with n M d s = (Inr a, s') \<and> domain a = d \<and>
      timestamp a = now_isoformat n s) \<and>
   (seq (analyze_steps M d) (initial_analysis d (now_isoformat n s)) (s @ [ClockRead]) =
      ((Some e, a0), s0) \<longrightarrow>
    analyze_domain_with n M d s = (Inr (a0\<lparr>error := Some (str_exn e)\<rparr>), s0)) \<and>
   (seq (analyze_steps M d) (initial_analysis d (now_isoformat n s)) (s @ [ClockRead]) =
      ((None, a0), s0) \<longrightarrow>
    analyze_domain_with n M d s = (Inr a0, s0) \<and> error a0 = None) \<and>
   (\<exists>a s'. analyze_domain n d s = (Inr a, s') \<and> error a = None) \<and>
   (\<exists>v s'. check_dns_records n d s = (Inr v, s')) \<and>
   (\<exists>v s'. check_whois_info n d mr s = (Inr v, s')) \<and>
   (\<exists>v s'. check_ssl_certificate n d t s = (Inr v, s')) \<and>
   (\<exists>v s'. check_domain_signatures n d s = (Inr v, s')) \<and>
   ((\<forall>h rr. \<exists>x. resolve n h d rr = Inl x) \<longrightarrow>
      fst (check_dns_records n d s) = Inr empty_dns_info) \<and>
   ((\<forall>h. \<exists>x. whois_lookup n h d = Inl x) \<longrightarrow>
      fst (check_whois_info n d mr s) = Inr empty_whois_info) \<and>
   ((\<exists>x. tls_getpeercert n s d t = Inl x) \<longrightarrow>
      fst (check_ssl_certificate n d t s) = Inr empty_ssl_info)"
proof (intro conjI impI)
  show "\<exists>a s'. analyze_domain_with n M d s = (Inr a, s') \<and> domain a = d \<and>
      timestamp a = now_isoformat n s"
    by (rule analyze_domain_with_returns)
next
  assume "seq (analyze_steps M d) (initial_analysis d (now_isoformat n s)) (s @ [ClockRead]) =
      ((Some e, a0), s0)"
  then show "analyze_domain_with n M d s = (Inr (a0\<lparr>error := Some (str_exn e)\<rparr>), s0)"
    by (simp add: analyze_domain_with_eq)
next
  assume run: "seq (analyze_steps M d) (initial_analysis d (now_isoformat n s))
      (s @ [ClockRead]) = ((None, a0), s0)"
  then show "analyze_domain_with n M d s = (Inr a0, s0)"
    by (simp add: analyze_domain_with_eq)
  from analyze_steps_keep [OF run] show "error a0 = None"
    by (simp add: initial_analysis_def)
next
  show "\<exists>a s'. analyze_domain n d s = (Inr a, s') \<and> error a = None"
    by (rule analyze_domain_no_error)
  show "\<exists>v s'. check_dns_records n d s = (Inr v, s')"
    by (rule check_dns_records_returns)
  show "\<exists>v s'. check_whois_info n d mr s = (Inr v, s')"
    by (rule check_whois_info_returns)
  show "\<exists>v s'. check_ssl_certificate n d t s = (Inr v, s')"
    by (rule check_ssl_certificate_returns)
  show "\<exists>v s'. check_domain_signatures n d s = (Inr v, s')"
    by (rule check_domain_signatures_returns)
next
  assume dead: "\<forall>h rr. \<exists>x. resolve n h d rr = Inl x"
  have "(case resolve n h d rr of Inl e \<Rightarrow> [] | Inr rs \<Rightarrow> map f rs) = []"
    for h rr and f :: "rdata \<Rightarrow> string"
    using dead [rule_format, of h rr] by auto
  then show "fst (check_dns_records n d s) = Inr empty_dns_info"
    by (simp add: check_dns_records_eq empty_dns_info_def)
next
  assume "\<forall>h. \<exists>x. whois_lookup n h d = Inl x"
  then have "\<forall>i < nat mr. \<exists>e. whois_lookup n (s @ failed_attempts d i) d = Inl e"
    by simp
  from check_whois_info_exhaust [OF this]
  show "fst (check_whois_info n d mr s) = Inr empty_whois_info"
    by simp
next
  assume "\<exists>x. tls_getpeercert n s d t = Inl x"
  then show "fst (check_ssl_certificate n d t s) = Inr empty_ssl_info"
    by (auto simp: check_ssl_certificate_eq)
qed

theorem analyze_domain_never_raises_witness:
  "analyze_domain_with dead_net (faulty_scanner dead_net) ''example.com'' [] =
     (Inr ((initial_analysis ''example.com'' ''2024-01-01T00:00:00'')\<lparr>error := Some ''boom''\<rparr>),
      [ClockRead]) \<and>
   analyze_domain_with dead_net (scanner dead_net) ''example.com'' [] =
     (Inr silent_result, dead_history ''example.com'') \<and>
   error silent_result = None \<and>
   fst (check_dns_records dead_net ''example.com'' []) = Inr empty_dns_info \<and>
   fst (check_whois_info dead_net ''example.com'' 3 []) = Inr empty_whois_info \<and>
   fst (check_ssl_certificate dead_net ''example.com'' 5 []) = Inr empty_ssl_info"
proof -
  have now: "now_isoformat dead_net [] = ''2024-01-01T00:00:00''"
    by (simp add: dead_net_def)
  have faulty: "seq (analyze_steps (faulty_scanner dead_net) ''example.com'')
      (initial_analysis ''example.com'' (now_isoformat dead_net [])) ([] @ [ClockRead]) =
      ((Some (Exn ''boom''), initial_analysis ''example.com'' ''2024-01-01T00:00:00''),
       [ClockRead])"
    by (simp add: analyze_steps_def faulty_scanner_def assign_def raise_exn_def now)
  have sound: "seq (analyze_steps (scanner dead_net) ''example.com'')
      (initial_analysis ''example.com'' (now_isoformat dead_net [])) ([] @ [ClockRead]) =
      ((None, silent_result), dead_history ''example.com'')"
    using dead_steps by (simp add: now)
  have h: "\<forall>h rr. \<exists>x. resolve dead_net h ''example.com'' rr = Inl x"
    "\<forall>h. \<exists>x. whois_lookup dead_net h ''example.com'' = Inl x"
    "\<exists>x. tls_getpeercert dead_net [] ''example.com'' 5 = Inl x"
    by (simp_all add: dead_net_def)
  from analyze_domain_never_raises [of dead_net "faulty_scanner dead_net" "''example.com''"
      "[]" "Exn ''boom''" "initial_analysis ''example.com'' ''2024-01-01T00:00:00''"
      "[ClockRead]" 3 5] faulty
  have a: "analyze_domain_with dead_net (faulty_scanner dead_net) ''example.com'' [] =
     (Inr ((initial_analysis ''example.com'' ''2024-01-01T00:00:00'')\<lparr>error := Some ''boom''\<rparr>),
      [ClockRead])"
    by simp
  from analyze_domain_never_raises [of dead_net "scanner dead_net" "''example.com''"
      "[]" _ silent_result "dead_history ''example.com''" 3 5] sound h
  have b: "analyze_domain_with dead_net (scanner dead_net) ''example.com'' [] =
     (Inr silent_result, dead_history ''example.com'') \<and>
   error silent_result = None \<and>
   fst (check_dns_records dead_net ''example.com'' []) = Inr empty_dns_info \<and>
   fst (check_whois_info dead_net ''example.com'' 3 []) = Inr empty_whois_info \<and>
   fst (check_ssl_certificate dead_net ''example.com'' 5 []) = Inr empty_ssl_info"
    by blast
  from a b show ?thesis by blast
qed

text \<open>
  C10. The record \<open>analyze_domain\<close> returns is the initial dictionary with some fields
  assigned, so it has every field of the initial dictionary, \<open>domain\<close> and \<open>timestamp\<close> as
  set at the start. When one of the four steps before the availability copy faults,
  \<open>is_available\<close> is still None, \<open>quality_score\<close> still 0 and \<open>recommendations\<close> still empty.
\<close>

theorem analyze_domain_fields_initialised:
  "(\<exists>a s'. analyze_domain_with n M d s = (Inr a, s') \<and> domain a = d \<and>
      timestamp a = now_isoformat n s) \<and>
   (seq (take 4 (analyze_steps M d)) (initial_analysis d (now_isoformat n s))
      (s @ [ClockRead]) = ((Some e, a0), s0) \<longrightarrow>
    analyze_domain_with n M d s = (Inr (a0\<lparr>error := Some (str_exn e)\<rparr>), s0) \<and>
    is_available' a0 = None \<and> quality_score a0 = 0 \<and> recommendations a0 = [])"
proof (intro conjI impI)
  show "\<exists>a s'. analyze_domain_with n M d s = (Inr a, s') \<and> domain a = d \<and>
      timestamp a = now_isoformat n s"
    by (rule analyze_domain_with_returns)
next
  assume run: "seq (take 4 (analyze_steps M d)) (initial_analysis d (now_isoformat n s))
      (s @ [ClockRead]) = ((Some e, a0), s0)"
  have "analyze_steps M d = take 4 (analyze_steps M d) @ drop 4 (analyze_steps M d)"
    by simp
  then have "seq (analyze_steps M d) (initial_analysis d (now_isoformat n s))
      (s @ [ClockRead]) = ((Some e, a0), s0)"
    using run seq_append [of "take 4 (analyze_steps M d)" "drop 4 (analyze_steps M d)"]
    by (metis (no_types, lifting) case_prod_conv option.simps(5))
  then show "analyze_domain_with n M d s = (Inr (a0\<lparr>error := Some (str_exn e)\<rparr>), s0)"
    by (simp add: analyze_domain_with_eq)
  from analyze_fetches_keep [OF run]
  show "is_available' a0 = None" "quality_score a0 = 0" "recommendations a0 = []"
    by (simp_all add: initial_analysis_def)
qed

theorem analyze_domain_fields_initialised_witness:
  "analyze_domain_with dead_net (faulty_scanner dead_net) ''example.com'' [] =
     (Inr ((initial_analysis ''example.com'' ''2024-01-01T00:00:00'')\<lparr>error := Some ''boom''\<rparr>),
      [ClockRead]) \<and>
   is_available' (initial_analysis ''example.com'' ''2024-01-01T00:00:00'') = None \<and>
   quality_score (initial_analysis ''example.com'' ''2024-01-01T00:00:00'') = 0 \<and>
   recommendations (initial_analysis ''example.com'' ''2024-01-01T00:00:00'') = []"
proof -
  have now: "now_isoformat dead_net [] = ''2024-01-01T00:00:00''"
    by (simp add: dead_net_def)
  have faulty: "seq (take 4 (analyze_steps (faulty_scanner dead_net) ''example.com''))
      (initial_analysis ''example.com'' (now_isoformat dead_net [])) ([] @ [ClockRead]) =
      ((Some (Exn ''boom''), initial_analysis ''example.com'' ''2024-01-01T00:00:00''),
       [ClockRead])"
    by (simp add: take_fetches faulty_scanner_def assign_def raise_exn_def now)
  from analyze_domain_fields_initialised [of dead_net "faulty_scanner dead_net"
      "''example.com''" "[]" "Exn ''boom''"
      "initial_analysis ''example.com'' ''2024-01-01T00:00:00''" "[ClockRead]"] faulty
  show ?thesis by simp
qed

subsection \<open>The batch driver\<close>

lemma batch_loop_appends:
  assumes "batch_loop n analyze ds res s = (res', s')"
  shows "\<exists>es. domains res' = domains res @ es \<and>
    total_domains res' = total_domains res \<and>
    processed res' = processed res + int (length ds) \<and>
    successful res' = successful res + int (length (filter (\<lambda>x. \<not> is_stub x) es)) \<and>
    failed res' = failed res + int (length (filter is_stub es)) \<and>
    list_all2 (outcome_of n analyze) ds es"
  using assms
proof (induction ds arbitrary: res s)
  case Nil
  then show ?case by simp
next
  case (Cons d ds)
  obtain r s1 where an: "analyze d s = (r, s1)"
    by (metis surj_pair)
  show ?case
  proof (cases r)
    case (Inr a)
    let ?res = "res\<lparr>domains := domains res @ [Analysis a], successful := successful res + 1,
        processed := processed res + 1\<rparr>"
    from Cons.prems an Inr have "batch_loop n analyze ds ?res s1 = (res', s')"
      by (simp add: Let_def)
    from Cons.IH [OF this] obtain es where es:
      "domains res' = (domains res @ [Analysis a]) @ es"
      "total_domains res' = total_domains res"
      "processed res' = processed res + 1 + int (length ds)"
      "successful res' = successful res + 1 + int (length (filter (\<lambda>x. \<not> is_stub x) es))"
      "failed res' = failed res + int (length (filter is_stub es))"
      "list_all2 (outcome_of n analyze) ds es"
      by auto
    have "outcome_of n analyze d (Analysis a)"
      using an Inr by (auto simp: outcome_of_def)
    with es show ?thesis
      by (intro exI [of _ "Analysis a # es"]) simp
  next
    case (Inl e)
    let ?x = "Failure d (str_exn e) (now_isoformat n s1)"
    let ?res = "res\<lparr>domains := domains res @ [?x],
        failed := failed res + 1, processed := processed res + 1\<rparr>"
    from Cons.prems an Inl have "batch_loop n analyze ds ?res (s1 @ [ClockRead]) = (res', s')"
      by (simp add: Let_def)
    from Cons.IH [OF this] obtain es where es:
      "domains res' = (domains res @ [?x]) @ es"
      "total_domains res' = total_domains res"
      "processed res' = processed res + 1 + int (length ds)"
      "successful res' = successful res + int (length (filter (\<lambda>x. \<not> is_stub x) es))"
      "failed res' = failed res + 1 + int (length (filter is_stub es))"
      "list_all2 (outcome_of n analyze) ds es"
      by auto
    have "outcome_of n analyze d ?x"
      using an Inl by (auto simp: outcome_of_def)
    with es show ?thesis
      by (intro exI [of _ "?x # es"]) simp
  qed
qed

lemma batch_result:
  assumes "batch_analyze_domains_with n analyze ds s = (res, s')"
  shows "total_domains res = int (length ds) \<and> processed res = int (length ds) \<and>
    successful res = int (length (filter (\<lambda>x. \<not> is_stub x) (domains res))) \<and>
    failed res = int (length (filter is_stub (domains res))) \<and>
    list_all2 (outcome_of n analyze) ds (domains res)"
  using batch_loop_appends [OF assms [unfolded batch_analyze_domains_with_def]]
  by auto


lemma outcome_of_orchestrator:
  assumes "outcome_of n (analyze_domain_with n' M) d x"
  shows "\<exists>a. x = Analysis a \<and> domain a = d"
proof -
  from assms consider
    (ok) si a so where "analyze_domain_with n' M d si = (Inr a, so)" "x = Analysis a"
  | (bad) si e so where "analyze_domain_with n' M d si = (Inl e, so)"
    by (auto simp: outcome_of_def)
  then show ?thesis
  proof cases
    case ok
    with analyze_domain_with_returns [of n' M d si] show ?thesis by auto
  next
    case bad
    with analyze_domain_with_returns [of n' M d si] show ?thesis by auto
  qed
qed

lemma orchestrator_entries:
  assumes "list_all2 (outcome_of n (analyze_domain_with n' M)) ds es"
  shows "filter is_stub es = [] \<and> map entry_domain es = ds"
  using assms
proof (induction rule: list_all2_induct)
  case Nil
  then show ?case by simp
next
  case (Cons d x ds es)
  from outcome_of_orchestrator [OF Cons.hyps(1)] Cons.IH show ?case
    by auto
qed



lemma raising_batch:
  "batch_analyze_domains_with dead_net (\<lambda>d. raise_exn (Exn ''boom'')) [''example.com''] [] =
   (\<lparr>total_domains = 1, processed = 1, successful = 0, failed = 1,
     domains = [Failure ''example.com'' ''boom'' ''2024-01-01T00:00:00'']\<rparr>,
    [ClockRead])"
  by (simp add: batch_analyze_domains_with_def raise_exn_def dead_net_def)

text \<open>
  C9. In the batch driver a domain whose analysis faulted inside \<open>analyze_domain\<close> comes
  back as a record with \<open>error\<close> set: it is appended to the results and counted as
  successful, not as failed. Whatever the steps of \<open>analyze_domain\<close> do, no entry is a stub
  and \<open>failed\<close> stays 0; \<open>failed\<close> is positive only when some call of the analysis itself
  raised.
\<close>

theorem batch_counts_internal_fault_as_success:
  "(batch_analyze_domains_with n (analyze_domain_with n M) ds s = (res, s') \<longrightarrow>
      failed res = 0 \<and> successful res = int (length ds) \<and>
      (\<forall>x \<in> set (domains res). \<not> is_stub x)) \<and>
   (seq (analyze_steps M d) (initial_analysis d (now_isoformat n s)) (s @ [ClockRead]) =
      ((Some e, a0), s0) \<longrightarrow>
    batch_analyze_domains_with n (analyze_domain_with n M) [d] s =
      (\<lparr>total_domains = 1, processed = 1, successful = 1, failed = 0,
        domains = [Analysis (a0\<lparr>error := Some (str_exn e)\<rparr>)]\<rparr>, s0)) \<and>
   (batch_analyze_domains_with n analyze ds s = (res1, s1) \<and> 0 < failed res1 \<longrightarrow>
      (\<exists>d1 \<in> set ds. \<exists>si e1 so. analyze d1 si = (Inl e1, so)))"
proof (intro conjI impI)
  assume run: "batch_analyze_domains_with n (analyze_domain_with n M) ds s = (res, s')"
  from batch_result [OF run] have r: "successful res =
        int (length (filter (\<lambda>x. \<not> is_stub x) (domains res)))"
      "failed res = int (length (filter is_stub (domains res)))"
      "list_all2 (outcome_of n (analyze_domain_with n M)) ds (domains res)"
    by simp_all
  from orchestrator_entries [OF r(3)] have none: "filter is_stub (domains res) = []"
    by simp
  with r(2) show "failed res = 0" by simp
  from none show "\<forall>x \<in> set (domains res). \<not> is_stub x"
    by (simp add: filter_empty_conv)
  then have "filter (\<lambda>x. \<not> is_stub x) (domains res) = domains res"
    by simp
  with r(1) list_all2_lengthD [OF r(3)] show "successful res = int (length ds)"
    by simp
next
  assume "seq (analyze_steps M d) (initial_analysis d (now_isoformat n s)) (s @ [ClockRead]) =
      ((Some e, a0), s0)"
  then have "analyze_domain_with n M d s = (Inr (a0\<lparr>error := Some (str_exn e)\<rparr>), s0)"
    by (simp add: analyze_domain_with_eq)
  then show "batch_analyze_domains_with n (analyze_domain_with n M) [d] s =
      (\<lparr>total_domains = 1, processed = 1, successful = 1, failed = 0,
        domains = [Analysis (a0\<lparr>error := Some (str_exn e)\<rparr>)]\<rparr>, s0)"
    by (simp add: batch_analyze_domains_with_def)
next
  assume h: "batch_analyze_domains_with n analyze ds s = (res1, s1) \<and> 0 < failed res1"
  then have run: "batch_analyze_domains_with n analyze ds s = (res1, s1)" by simp
  from batch_result [OF run] h have
    stubs: "filter is_stub (domains res1) \<noteq> []"
    and all: "list_all2 (outcome_of n analyze) ds (domains res1)"
    by auto
  from stubs obtain x where x: "x \<in> set (domains res1)" "is_stub x"
    by (auto simp: filter_empty_conv)
  then obtain i where i: "i < length (domains res1)" "domains res1 ! i = x"
    by (auto simp: in_set_conv_nth)
  from all i have len: "i < length ds" and out: "outcome_of n analyze (ds ! i) x"
    by (auto simp: list_all2_conv_all_nth)
  from out x(2) obtain si e1 so where "analyze (ds ! i) si = (Inl e1, so)"
    by (auto simp: outcome_of_def)
  with len show "\<exists>d1 \<in> set ds. \<exists>si e1 so. analyze d1 si = (Inl e1, so)"
    by (metis nth_mem)
qed

theorem batch_counts_internal_fault_as_success_witness:
  "batch_analyze_domains_with dead_net (analyze_domain_with dead_net (faulty_scanner dead_net))
     [''example.com''] [] =
   (\<lparr>total_domains = 1, processed = 1, successful = 1, failed = 0,
     domains = [Analysis ((initial_analysis ''example.com'' ''2024-01-01T00:00:00'')
                  \<lparr>error := Some ''boom''\<rparr>)]\<rparr>,
    [ClockRead]) \<and>
   (\<exists>d1 \<in> set [''example.com''].
      \<exists>si e1 so. (raise_exn (Exn ''boom'') :: analysis io) si = (Inl e1, so))"
proof -
  have faulty: "seq (analyze_steps (faulty_scanner dead_net) ''example.com'')
      (initial_analysis ''example.com'' (now_isoformat dead_net [])) ([] @ [ClockRead]) =
      ((Some (Exn ''boom''), initial_analysis ''example.com'' ''2024-01-01T00:00:00''),
       [ClockRead])"
    by (simp add: analyze_steps_def faulty_scanner_def assign_def raise_exn_def dead_net_def)
  have raised: "batch_analyze_domains_with dead_net (\<lambda>d. raise_exn (Exn ''boom''))
      [''example.com''] [] =
    (\<lparr>total_domains = 1, processed = 1, successful = 0, failed = 1,
      domains = [Failure ''example.com'' ''boom'' ''2024-01-01T00:00:00'']\<rparr>, [ClockRead]) \<and>
    0 < failed \<lparr>total_domains = 1, processed = 1, successful = 0, failed = 1,
      domains = [Failure ''example.com'' ''boom'' ''2024-01-01T00:00:00'']\<rparr>"
    by (simp add: raising_batch)
  from batch_counts_internal_fault_as_success [of dead_net "faulty_scanner dead_net"
      "[''example.com'']" "[]" _ _ "''example.com''" "Exn ''boom''"
      "initial_analysis ''example.com'' ''2024-01-01T00:00:00''" "[ClockRead]"
      "\<lambda>d. raise_exn (Exn ''boom'')"
      "\<lparr>total_domains = 1, processed = 1, successful = 0, failed = 1,
        domains = [Failure ''example.com'' ''boom'' ''2024-01-01T00:00:00'']\<rparr>" "[ClockRead]"]
    faulty raised
  show ?thesis by simp
qed




subsection \<open>Signatures\<close>

lemma whois_attempts_steady:
  assumes "\<forall>s s' d. whois_lookup n s d = whois_lookup n s' d"
  shows "fst (whois_attempts n d mr xs info s) = fst (whois_attempts n d mr xs info s')"
proof (induction xs arbitrary: s s')
  case Nil
  then show ?case by simp
next
  case (Cons x xs)
  from assms have same: "whois_lookup n s d = whois_lookup n s' d" by blast
  show ?case
  proof (cases "whois_lookup n s' d")
    case (Inl e)
    with same Cons.IH show ?thesis
      by (simp add: whois_whois_def time_sleep_def)
  next
    case (Inr w)
    with same show ?thesis
      by (simp add: whois_whois_def)
  qed
qed

lemma check_whois_info_steady:
  assumes "steady n"
  shows "fst (check_whois_info n d mr s) = fst (check_whois_info n d mr s')"
proof -
  from assms have w: "\<forall>s s' d. whois_lookup n s d = whois_lookup n s' d"
    by (simp add: steady_def)
  obtain x r t where a: "whois_attempts n d mr (range_py mr) empty_whois_info s = ((x, r), t)"
    by (metis surj_pair)
  obtain x' r' t' where
    b: "whois_attempts n d mr (range_py mr) empty_whois_info s' = ((x', r'), t')"
    by (metis surj_pair)
  from whois_attempts_steady [OF w, of d mr "range_py mr" empty_whois_info s s'] a b
  have "x = x'" "r = r'" by simp_all
  with a b show ?thesis
    by (cases x') (simp_all add: check_whois_info_def run_fn_def)
qed

lemma analyze_domain_eq:
  assumes "check_dns_records n d (s @ [ClockRead]) = (Inr v1, s1)"
    and "check_whois_info n d 3 s1 = (Inr v2, s2)"
    and "check_ssl_certificate n d 5 s2 = (Inr v3, s3)"
    and "check_domain_signatures n d s3 = (Inr v4, s4)"
  shows "\<exists>a. analyze_domain n d s = (Inr a, s4) \<and> dns_records a = Some v1 \<and>
    whois_info a = Some v2 \<and> ssl_info a = Some v3 \<and> signatures a = v4 \<and>
    is_available' a = Some (is_available v2) \<and> error a = None"
  unfolding analyze_domain_def analyze_domain_with_eq analyze_steps_def scanner_sel
  using assms
  by (simp add: assign_def whois_is_available_def ret_def initial_analysis_def)

lemma tag_membership:
  "''DNS_NS'' \<in> set ((if b1 then [''DNS_NS''] else []) @ (if b2 then [''DNS_A''] else []) @
      (if b3 then [''DNS_MX''] else []) @ (if b4 then [''WHOIS''] else []) @
      (if b5 then [''SSL''] else [])) \<longleftrightarrow> b1"
  "''DNS_A'' \<in> set ((if b1 then [''DNS_NS''] else []) @ (if b2 then [''DNS_A''] else []) @
      (if b3 then [''DNS_MX''] else []) @ (if b4 then [''WHOIS''] else []) @
      (if b5 then [''SSL''] else [])) \<longleftrightarrow> b2"
  "''DNS_MX'' \<in> set ((if b1 then [''DNS_NS''] else []) @ (if b2 then [''DNS_A''] else []) @
      (if b3 then [''DNS_MX''] else []) @ (if b4 then [''WHOIS''] else []) @
      (if b5 then [''SSL''] else [])) \<longleftrightarrow> b3"
  "''WHOIS'' \<in> set ((if b1 then [''DNS_NS''] else []) @ (if b2 then [''DNS_A''] else []) @
      (if b3 then [''DNS_MX''] else []) @ (if b4 then [''WHOIS''] else []) @
      (if b5 then [''SSL''] else [])) \<longleftrightarrow> b4"
  "''SSL'' \<in> set ((if b1 then [''DNS_NS''] else []) @ (if b2 then [''DNS_A''] else []) @
      (if b3 then [''DNS_MX''] else []) @ (if b4 then [''WHOIS''] else []) @
      (if b5 then [''SSL''] else [])) \<longleftrightarrow> b5"
  "set ((if b1 then [''DNS_NS''] else []) @ (if b2 then [''DNS_A''] else []) @
      (if b3 then [''DNS_MX''] else []) @ (if b4 then [''WHOIS''] else []) @
      (if b5 then [''SSL''] else [])) \<subseteq> {''DNS_NS'', ''DNS_A'', ''DNS_MX'', ''WHOIS'', ''SSL''}"
  by auto

lemma analyze_domain_signatures:
  assumes "check_dns_records n d (s @ [ClockRead]) = (Inr v1, s1)"
    and "check_whois_info n d 3 s1 = (Inr v2, s2)"
    and "check_ssl_certificate n d 5 s2 = (Inr v3, s3)"
    and "check_whois_info n d 3 (s3 @ [DnsQuery d NS, DnsQuery d A, DnsQuery d MX]) =
           (Inr wi, sw)"
    and "check_ssl_certificate n d 5 sw = (Inr ci, sc)"
  shows "\<exists>a. analyze_domain n d s = (Inr a, sc) \<and> dns_records a = Some v1 \<and>
      whois_info a = Some v2 \<and> ssl_info a = Some v3 \<and>
      (''DNS_NS'' \<in> set (signatures a) \<longleftrightarrow> answered (resolve n s3 d NS)) \<and>
      (''DNS_A'' \<in> set (signatures a) \<longleftrightarrow> answered (resolve n (s3 @ [DnsQuery d NS]) d A)) \<and>
      (''DNS_MX'' \<in> set (signatures a) \<longleftrightarrow>
         answered (resolve n (s3 @ [DnsQuery d NS, DnsQuery d A]) d MX)) \<and>
      (''WHOIS'' \<in> set (signatures a) \<longleftrightarrow> is_registered wi) \<and>
      (''SSL'' \<in> set (signatures a) \<longleftrightarrow> has_ssl ci) \<and>
      set (signatures a) \<subseteq> {''DNS_NS'', ''DNS_A'', ''DNS_MX'', ''WHOIS'', ''SSL''}"
proof -
  note sig = check_domain_signatures_eq [OF assms(4,5)]
  from analyze_domain_eq [OF assms(1-3) sig] obtain a where
    a: "analyze_domain n d s = (Inr a, sc)" "dns_records a = Some v1"
      "whois_info a = Some v2" "ssl_info a = Some v3"
      "signatures a =
         (if answered (resolve n s3 d NS) then [''DNS_NS''] else []) @
         (if answered (resolve n (s3 @ [DnsQuery d NS]) d A) then [''DNS_A''] else []) @
         (if answered (resolve n (s3 @ [DnsQuery d NS, DnsQuery d A]) d MX)
          then [''DNS_MX''] else []) @
         (if is_registered wi then [''WHOIS''] else []) @
         (if has_ssl ci then [''SSL''] else [])"
    by blast
  show ?thesis
    by (intro exI [of _ a] conjI a(1-4)) (simp_all only: a(5) tag_membership)
qed

lemma answered_map:
  "(case r of Inl e \<Rightarrow> [] | Inr rs \<Rightarrow> map f rs) \<noteq> [] \<longleftrightarrow> answered r"
  by (cases r) (simp_all add: answered_def)

lemma analyze_domain_steady:
  assumes st: "steady n"
  shows "\<exists>a s'. analyze_domain n d s = (Inr a, s') \<and>
      (''DNS_NS'' \<in> set (signatures a) \<longleftrightarrow> dns_get a ns_records) \<and>
      (''DNS_A'' \<in> set (signatures a) \<longleftrightarrow> dns_get a a_records) \<and>
      (''DNS_MX'' \<in> set (signatures a) \<longleftrightarrow> dns_get a mx_records) \<and>
      (''WHOIS'' \<in> set (signatures a) \<longleftrightarrow>
         (\<exists>w. whois_info a = Some w \<and> is_registered w)) \<and>
      (''SSL'' \<in> set (signatures a) \<longleftrightarrow> ssl_get_has_ssl a)"
proof -
  let ?s1 = "s @ [ClockRead] @
      [DnsQuery d NS, DnsQuery d A, DnsQuery d MX, DnsQuery d TXT, DnsQuery d CNAME]"
  obtain v1 where 1: "check_dns_records n d (s @ [ClockRead]) = (Inr v1, ?s1)"
    by (simp add: check_dns_records_eq)
  obtain v2 s2 where 2: "check_whois_info n d 3 ?s1 = (Inr v2, s2)"
    using check_whois_info_returns by blast
  let ?s3 = "s2 @ [TlsConnect d 5]"
  obtain v3 where 3: "check_ssl_certificate n d 5 s2 = (Inr v3, ?s3)"
    by (simp add: check_ssl_certificate_eq)
  obtain wi sw where 4:
    "check_whois_info n d 3 (?s3 @ [DnsQuery d NS, DnsQuery d A, DnsQuery d MX]) = (Inr wi, sw)"
    using check_whois_info_returns by blast
  obtain ci where 5: "check_ssl_certificate n d 5 sw = (Inr ci, sw @ [TlsConnect d 5])"
    by (simp add: check_ssl_certificate_eq)
  from analyze_domain_signatures [OF 1 2 3 4 5] obtain a where
    a: "analyze_domain n d s = (Inr a, sw @ [TlsConnect d 5])" "dns_records a = Some v1"
      "whois_info a = Some v2" "ssl_info a = Some v3"
      "''DNS_NS'' \<in> set (signatures a) \<longleftrightarrow> answered (resolve n ?s3 d NS)"
      "''DNS_A'' \<in> set (signatures a) \<longleftrightarrow> answered (resolve n (?s3 @ [DnsQuery d NS]) d A)"
      "''DNS_MX'' \<in> set (signatures a) \<longleftrightarrow>
         answered (resolve n (?s3 @ [DnsQuery d NS, DnsQuery d A]) d MX)"
      "''WHOIS'' \<in> set (signatures a) \<longleftrightarrow> is_registered wi"
      "''SSL'' \<in> set (signatures a) \<longleftrightarrow> has_ssl ci"
    by blast
  from st have dns: "resolve n h d rr = resolve n h' d rr" for h h' rr
    by (simp add: steady_def)
  from st have tls: "tls_getpeercert n h d t = tls_getpeercert n h' d t" for h h' t
    by (simp add: steady_def)
  from 1 have v1: "v1 = \<lparr>ns_records =
       (case resolve n (s @ [ClockRead]) d NS of Inl e \<Rightarrow> [] | Inr rs \<Rightarrow> map rd_str rs),
     a_records = (case resolve n ((s @ [ClockRead]) @ [DnsQuery d NS]) d A of
                    Inl e \<Rightarrow> [] | Inr rs \<Rightarrow> map rd_str rs),
     mx_records = (case resolve n ((s @ [ClockRead]) @ [DnsQuery d NS, DnsQuery d A]) d MX of
                     Inl e \<Rightarrow> [] | Inr rs \<Rightarrow> map mx_text rs),
     txt_records =
       (case resolve n ((s @ [ClockRead]) @ [DnsQuery d NS, DnsQuery d A, DnsQuery d MX]) d TXT
        of Inl e \<Rightarrow> [] | Inr rs \<Rightarrow> map rd_str rs),
     cname_records =
       (case resolve n
               ((s @ [ClockRead]) @ [DnsQuery d NS, DnsQuery d A, DnsQuery d MX, DnsQuery d TXT])
               d CNAME
        of Inl e \<Rightarrow> [] | Inr rs \<Rightarrow> map rd_str rs)\<rparr>"
    by (simp add: check_dns_records_eq)
  have ns: "dns_get a ns_records \<longleftrightarrow> answered (resolve n ?s3 d NS)"
    unfolding dns_get_def a(2) v1
    using dns [of "s @ [ClockRead]" NS ?s3] by (simp add: answered_map)
  have ar: "dns_get a a_records \<longleftrightarrow> answered (resolve n (?s3 @ [DnsQuery d NS]) d A)"
    unfolding dns_get_def a(2) v1
    using dns [of "(s @ [ClockRead]) @ [DnsQuery d NS]" A "?s3 @ [DnsQuery d NS]"]
    by (simp add: answered_map)
  have mx: "dns_get a mx_records \<longleftrightarrow>
      answered (resolve n (?s3 @ [DnsQuery d NS, DnsQuery d A]) d MX)"
    unfolding dns_get_def a(2) v1
    using dns [of "(s @ [ClockRead]) @ [DnsQuery d NS, DnsQuery d A]" MX
        "?s3 @ [DnsQuery d NS, DnsQuery d A]"]
    by (simp add: answered_map)
  from check_whois_info_steady [OF st, of d 3 ?s1
      "?s3 @ [DnsQuery d NS, DnsQuery d A, DnsQuery d MX]"] 2 4
  have w: "wi = v2" by simp
  from 3 5 tls [of s2 5 sw] have c: "ci = v3"
    by (simp add: check_ssl_certificate_eq)
  show ?thesis
    using a(1) ns ar mx a(5-9) w c a(3,4)
    by (intro exI [of _ a] exI [of _ "sw @ [TlsConnect d 5]"])
      (simp add: ssl_get_has_ssl_def)
qed

lemma recovering_fetches:
  "check_dns_records recovering_net ''example.com'' ([] @ [ClockRead]) =
     (Inr empty_dns_info,
      [ClockRead, DnsQuery ''example.com'' NS, DnsQuery ''example.com'' A,
       DnsQuery ''example.com'' MX, DnsQuery ''example.com'' TXT,
       DnsQuery ''example.com'' CNAME])"
  "check_whois_info recovering_net ''example.com'' 3
     [ClockRead, DnsQuery ''example.com'' NS, DnsQuery ''example.com'' A,
      DnsQuery ''example.com'' MX, DnsQuery ''example.com'' TXT,
      DnsQuery ''example.com'' CNAME] =
     (Inr (fill_whois recovering_net empty_whois_info example_entry),
      [ClockRead, DnsQuery ''example.com'' NS, DnsQuery ''example.com'' A,
       DnsQuery ''example.com'' MX, DnsQuery ''example.com'' TXT,
       DnsQuery ''example.com'' CNAME, WhoisQuery ''example.com'', Sleep 2,
       WhoisQuery ''example.com''])"
  "check_ssl_certificate recovering_net ''example.com'' 5
     [ClockRead, DnsQuery ''example.com'' NS, DnsQuery ''example.com'' A,
       DnsQuery ''example.com'' MX, DnsQuery ''example.com'' TXT,
       DnsQuery ''example.com'' CNAME, WhoisQuery ''example.com'', Sleep 2,
       WhoisQuery ''example.com''] =
     (Inr empty_ssl_info, recovering_fetched ''example.com'')"
  "check_whois_info recovering_net ''example.com'' 3
     (recovering_fetched ''example.com'' @
      [DnsQuery ''example.com'' NS, DnsQuery ''example.com'' A, DnsQuery ''example.com'' MX]) =
     (Inr (fill_whois recovering_net empty_whois_info example_entry),
      recovering_fetched ''example.com'' @
      [DnsQuery ''example.com'' NS, DnsQuery ''example.com'' A, DnsQuery ''example.com'' MX,
       WhoisQuery ''example.com''])"
  "check_ssl_certificate recovering_net ''example.com'' 5
     (recovering_fetched ''example.com'' @
      [DnsQuery ''example.com'' NS, DnsQuery ''example.com'' A, DnsQuery ''example.com'' MX,
       WhoisQuery ''example.com'']) =
     (Inr (empty_ssl_info\<lparr>has_ssl := True, issuer := PDict [], subject := PDict [],
        not_before := PStr [], not_after := PStr [], serial_number := PStr [],
        version := PInt 3\<rparr>),
      recovering_fetched ''example.com'' @
      [DnsQuery ''example.com'' NS, DnsQuery ''example.com'' A, DnsQuery ''example.com'' MX,
       WhoisQuery ''example.com'', TlsConnect ''example.com'' 5])"
proof -
  show "check_dns_records recovering_net ''example.com'' ([] @ [ClockRead]) =
     (Inr empty_dns_info,
      [ClockRead, DnsQuery ''example.com'' NS, DnsQuery ''example.com'' A,
       DnsQuery ''example.com'' MX, DnsQuery ''example.com'' TXT,
       DnsQuery ''example.com'' CNAME])"
    by (simp add: check_dns_records_eq recovering_net_def empty_dns_info_def)
  have one: "failed_attempts ''example.com'' (Suc 0) = [WhoisQuery ''example.com'', Sleep 2]"
    by (simp add: failed_attempts_def)
  let ?s1 = "[ClockRead, DnsQuery ''example.com'' NS, DnsQuery ''example.com'' A,
      DnsQuery ''example.com'' MX, DnsQuery ''example.com'' TXT,
      DnsQuery ''example.com'' CNAME]"
  have "(1::nat) < nat 3"
    "\<forall>i < (1::nat). \<exists>e. whois_lookup recovering_net
        (?s1 @ failed_attempts ''example.com'' i) ''example.com'' = Inl e"
    "whois_lookup recovering_net (?s1 @ failed_attempts ''example.com'' 1) ''example.com'' =
       Inr example_entry"
    by (simp_all add: recovering_net_def one)
  from check_whois_info_success [OF this]
  show "check_whois_info recovering_net ''example.com'' 3 ?s1 =
     (Inr (fill_whois recovering_net empty_whois_info example_entry),
      [ClockRead, DnsQuery ''example.com'' NS, DnsQuery ''example.com'' A,
       DnsQuery ''example.com'' MX, DnsQuery ''example.com'' TXT,
       DnsQuery ''example.com'' CNAME, WhoisQuery ''example.com'', Sleep 2,
       WhoisQuery ''example.com''])"
    by (simp add: one example_entry_def)
  show "check_ssl_certificate recovering_net ''example.com'' 5
     [ClockRead, DnsQuery ''example.com'' NS, DnsQuery ''example.com'' A,
       DnsQuery ''example.com'' MX, DnsQuery ''example.com'' TXT,
       DnsQuery ''example.com'' CNAME, WhoisQuery ''example.com'', Sleep 2,
       WhoisQuery ''example.com''] =
     (Inr empty_ssl_info, recovering_fetched ''example.com'')"
    by (simp add: check_ssl_certificate_eq recovering_net_def recovering_fetched_def)
  let ?s3 = "recovering_fetched ''example.com'' @
      [DnsQuery ''example.com'' NS, DnsQuery ''example.com'' A, DnsQuery ''example.com'' MX]"
  have "(0::nat) < nat 3"
    "\<forall>i < (0::nat). \<exists>e. whois_lookup recovering_net
        (?s3 @ failed_attempts ''example.com'' i) ''example.com'' = Inl e"
    "whois_lookup recovering_net (?s3 @ failed_attempts ''example.com'' 0) ''example.com'' =
       Inr example_entry"
    by (simp_all add: recovering_net_def recovering_fetched_def)
  from check_whois_info_success [OF this]
  show "check_whois_info recovering_net ''example.com'' 3 ?s3 =
     (Inr (fill_whois recovering_net empty_whois_info example_entry),
      recovering_fetched ''example.com'' @
      [DnsQuery ''example.com'' NS, DnsQuery ''example.com'' A, DnsQuery ''example.com'' MX,
       WhoisQuery ''example.com''])"
    by (simp add: example_entry_def)
  show "check_ssl_certificate recovering_net ''example.com'' 5
     (recovering_fetched ''example.com'' @
      [DnsQuery ''example.com'' NS, DnsQuery ''example.com'' A, DnsQuery ''example.com'' MX,
       WhoisQuery ''example.com'']) =
     (Inr (empty_ssl_info\<lparr>has_ssl := True, issuer := PDict [], subject := PDict [],
        not_before := PStr [], not_after := PStr [], serial_number := PStr [],
        version := PInt 3\<rparr>),
      recovering_fetched ''example.com'' @
      [DnsQuery ''example.com'' NS, DnsQuery ''example.com'' A, DnsQuery ''example.com'' MX,
       WhoisQuery ''example.com'', TlsConnect ''example.com'' 5])"
    by (simp add: check_ssl_certificate_eq recovering_net_def recovering_fetched_def
        example_cert_def)
qed

lemma recovering_answered:
  "answered (resolve recovering_net (recovering_fetched ''example.com'') ''example.com'' NS)"
  by (simp add: recovering_net_def recovering_fetched_def answered_def)

lemma recovering_analysis:
  "\<exists>a s'. analyze_domain recovering_net ''example.com'' [] = (Inr a, s') \<and>
     dns_records a = Some empty_dns_info \<and> ssl_info a = Some empty_ssl_info \<and>
     ''DNS_NS'' \<in> set (signatures a) \<and> ''SSL'' \<in> set (signatures a)"
  using analyze_domain_signatures [OF recovering_fetches] recovering_answered
  by auto

lemma steady_dead_net: "steady dead_net"
  by (simp add: steady_def dead_net_def)

text \<open>
  On the recovering network the record's DNS and TLS fields are empty, since the fetchers'
  queries faulted, while the signatures, taken from queries made afterwards, hold the tags
  \<open>DNS_NS\<close> and \<open>SSL\<close>.
\<close>

theorem signatures_own_queries_counterexample:
  "\<not> isl (fst (analyze_domain recovering_net ''example.com'' [])) \<and>
   ''DNS_NS'' \<in> set (signatures (projr (fst (analyze_domain recovering_net ''example.com'' [])))) \<and>
   \<not> dns_get (projr (fst (analyze_domain recovering_net ''example.com'' []))) ns_records \<and>
   ''SSL'' \<in> set (signatures (projr (fst (analyze_domain recovering_net ''example.com'' [])))) \<and>
   \<not> ssl_get_has_ssl (projr (fst (analyze_domain recovering_net ''example.com'' [])))"
  using recovering_analysis
  by (auto simp: dns_get_def ssl_get_has_ssl_def empty_dns_info_def empty_ssl_info_def)

text \<open>
  C7, as amended. \<open>check_domain_signatures\<close> asks the sources itself, after the three
  fetchers have filled the record. The signatures of a returned record hold \<open>DNS_NS\<close>,
  \<open>DNS_A\<close>, \<open>DNS_MX\<close> exactly when that query of its own returned at least one record,
  \<open>WHOIS\<close> exactly when its own WHOIS fetch classified the domain registered, \<open>SSL\<close> exactly
  when its own TLS probe found a certificate, and no other tag. When every source answers a
  repeated question as before, the tags agree with the record's \<open>dns_records\<close>,
  \<open>whois_info\<close> and \<open>ssl_info\<close>.
\<close>

theorem signatures_from_own_queries:
  "(check_dns_records n d (s @ [ClockRead]) = (Inr v1, s1) \<and>
    check_whois_info n d 3 s1 = (Inr v2, s2) \<and>
    check_ssl_certificate n d 5 s2 = (Inr v3, s3) \<and>
    check_whois_info n d 3 (s3 @ [DnsQuery d NS, DnsQuery d A, DnsQuery d MX]) =
      (Inr wi, sw) \<and>
    check_ssl_certificate n d 5 sw = (Inr ci, sc) \<longrightarrow>
    (\<exists>a. analyze_domain n d s = (Inr a, sc) \<and> dns_records a = Some v1 \<and>
      whois_info a = Some v2 \<and> ssl_info a = Some v3 \<and>
      (''DNS_NS'' \<in> set (signatures a) \<longleftrightarrow> answered (resolve n s3 d NS)) \<and>
      (''DNS_A'' \<in> set (signatures a) \<longleftrightarrow> answered (resolve n (s3 @ [DnsQuery d NS]) d A)) \<and>
      (''DNS_MX'' \<in> set (signatures a) \<longleftrightarrow>
         answered (resolve n (s3 @ [DnsQuery d NS, DnsQuery d A]) d MX)) \<and>
      (''WHOIS'' \<in> set (signatures a) \<longleftrightarrow> is_registered wi) \<and>
      (''SSL'' \<in> set (signatures a) \<longleftrightarrow> has_ssl ci) \<and>
      set (signatures a) \<subseteq> {''DNS_NS'', ''DNS_A'', ''DNS_MX'', ''WHOIS'', ''SSL''})) \<and>
   (steady n \<longrightarrow>
    (\<exists>a s'. analyze_domain n d s = (Inr a, s') \<and>
      (''DNS_NS'' \<in> set (signatures a) \<longleftrightarrow> dns_get a ns_records) \<and>
      (''DNS_A'' \<in> set (signatures a) \<longleftrightarrow> dns_get a a_records) \<and>
      (''DNS_MX'' \<in> set (signatures a) \<longleftrightarrow> dns_get a mx_records) \<and>
      (''WHOIS'' \<in> set (signatures a) \<longleftrightarrow>
         (\<exists>w. whois_info a = Some w \<and> is_registered w)) \<and>
      (''SSL'' \<in> set (signatures a) \<longleftrightarrow> ssl_get_has_ssl a)))"
proof (intro conjI impI)
  assume "check_dns_records n d (s @ [ClockRead]) = (Inr v1, s1) \<and>
    check_whois_info n d 3 s1 = (Inr v2, s2) \<and>
    check_ssl_certificate n d 5 s2 = (Inr v3, s3) \<and>
    check_whois_info n d 3 (s3 @ [DnsQuery d NS, DnsQuery d A, DnsQuery d MX]) =
      (Inr wi, sw) \<and>
    check_ssl_certificate n d 5 sw = (Inr ci, sc)"
  then have h: "check_dns_records n d (s @ [ClockRead]) = (Inr v1, s1)"
    "check_whois_info n d 3 s1 = (Inr v2, s2)"
    "check_ssl_certificate n d 5 s2 = (Inr v3, s3)"
    "check_whois_info n d 3 (s3 @ [DnsQuery d NS, DnsQuery d A, DnsQuery d MX]) = (Inr wi, sw)"
    "check_ssl_certificate n d 5 sw = (Inr ci, sc)"
    by simp_all
  show "\<exists>a. analyze_domain n d s = (Inr a, sc) \<and> dns_records a = Some v1 \<and>
      whois_info a = Some v2 \<and> ssl_info a = Some v3 \<and>
      (''DNS_NS'' \<in> set (signatures a) \<longleftrightarrow> answered (resolve n s3 d NS)) \<and>
      (''DNS_A'' \<in> set (signatures a) \<longleftrightarrow> answered (resolve n (s3 @ [DnsQuery d NS]) d A)) \<and>
      (''DNS_MX'' \<in> set (signatures a) \<longleftrightarrow>
         answered (resolve n (s3 @ [DnsQuery d NS, DnsQuery d A]) d MX)) \<and>
      (''WHOIS'' \<in> set (signatures a) \<longleftrightarrow> is_registered wi) \<and>
      (''SSL'' \<in> set (signatures a) \<longleftrightarrow> has_ssl ci) \<and>
      set (signatures a) \<subseteq> {''DNS_NS'', ''DNS_A'', ''DNS_MX'', ''WHOIS'', ''SSL''}"
    by (rule analyze_domain_signatures [OF h])
next
  assume "steady n"
  then show "\<exists>a s'. analyze_domain n d s = (Inr a, s') \<and>
      (''DNS_NS'' \<in> set (signatures a) \<longleftrightarrow> dns_get a ns_records) \<and>
      (''DNS_A'' \<in> set (signatures a) \<longleftrightarrow> dns_get a a_records) \<and>
      (''DNS_MX'' \<in> set (signatures a) \<longleftrightarrow> dns_get a mx_records) \<and>
      (''WHOIS'' \<in> set (signatures a) \<longleftrightarrow>
         (\<exists>w. whois_info a = Some w \<and> is_registered w)) \<and>
      (''SSL'' \<in> set (signatures a) \<longleftrightarrow> ssl_get_has_ssl a)"
    by (rule analyze_domain_steady)
qed

theorem signatures_from_own_queries_witness:
  "''DNS_NS'' \<in> set (signatures (projr (fst (analyze_domain recovering_net ''example.com'' [])))) \<and>
   steady dead_net \<and>
   (''DNS_NS'' \<in> set (signatures (projr (fst (analyze_domain dead_net ''example.com'' [])))) \<longleftrightarrow>
    dns_get (projr (fst (analyze_domain dead_net ''example.com'' []))) ns_records)"
proof -
  note inst = signatures_from_own_queries [of recovering_net "''example.com''" "[]"
      empty_dns_info
      "[ClockRead, DnsQuery ''example.com'' NS, DnsQuery ''example.com'' A,
        DnsQuery ''example.com'' MX, DnsQuery ''example.com'' TXT,
        DnsQuery ''example.com'' CNAME]"
      "fill_whois recovering_net empty_whois_info example_entry"
      "[ClockRead, DnsQuery ''example.com'' NS, DnsQuery ''example.com'' A,
        DnsQuery ''example.com'' MX, DnsQuery ''example.com'' TXT,
        DnsQuery ''example.com'' CNAME, WhoisQuery ''example.com'', Sleep 2,
        WhoisQuery ''example.com'']"
      empty_ssl_info
      "recovering_fetched ''example.com''" "fill_whois recovering_net empty_whois_info example_entry"
      "recovering_fetched ''example.com'' @
        [DnsQuery ''example.com'' NS, DnsQuery ''example.com'' A, DnsQuery ''example.com'' MX,
         WhoisQuery ''example.com'']"
      "empty_ssl_info\<lparr>has_ssl := True, issuer := PDict [], subject := PDict [],
        not_before := PStr [], not_after := PStr [], serial_number := PStr [],
        version := PInt 3\<rparr>"
      "recovering_fetched ''example.com'' @
        [DnsQuery ''example.com'' NS, DnsQuery ''example.com'' A, DnsQuery ''example.com'' MX,
         WhoisQuery ''example.com'', TlsConnect ''example.com'' 5]"]
  have hyp: "check_dns_records recovering_net ''example.com'' ([] @ [ClockRead]) =
     (Inr empty_dns_info,
      [ClockRead, DnsQuery ''example.com'' NS, DnsQuery ''example.com'' A,
       DnsQuery ''example.com'' MX, DnsQuery ''example.com'' TXT,
       DnsQuery ''example.com'' CNAME]) \<and>
    check_whois_info recovering_net ''example.com'' 3
     [ClockRead, DnsQuery ''example.com'' NS, DnsQuery ''example.com'' A,
      DnsQuery ''example.com'' MX, DnsQuery ''example.com'' TXT,
      DnsQuery ''example.com'' CNAME] =
     (Inr (fill_whois recovering_net empty_whois_info example_entry),
      [ClockRead, DnsQuery ''example.com'' NS, DnsQuery ''example.com'' A,
       DnsQuery ''example.com'' MX, DnsQuery ''example.com'' TXT,
       DnsQuery ''example.com'' CNAME, WhoisQuery ''example.com'', Sleep 2,
       WhoisQuery ''example.com'']) \<and>
    check_ssl_certificate recovering_net ''example.com'' 5
     [ClockRead, DnsQuery ''example.com'' NS, DnsQuery ''example.com'' A,
       DnsQuery ''example.com'' MX, DnsQuery ''example.com'' TXT,
       DnsQuery ''example.com'' CNAME, WhoisQuery ''example.com'', Sleep 2,
       WhoisQuery ''example.com''] =
     (Inr empty_ssl_info, recovering_fetched ''example.com'') \<and>
    check_whois_info recovering_net ''example.com'' 3
     (recovering_fetched ''example.com'' @
      [DnsQuery ''example.com'' NS, DnsQuery ''example.com'' A, DnsQuery ''example.com'' MX]) =
     (Inr (fill_whois recovering_net empty_whois_info example_entry),
      recovering_fetched ''example.com'' @
      [DnsQuery ''example.com'' NS, DnsQuery ''example.com'' A, DnsQuery ''example.com'' MX,
       WhoisQuery ''example.com'']) \<and>
    check_ssl_certificate recovering_net ''example.com'' 5
     (recovering_fetched ''example.com'' @
      [DnsQuery ''example.com'' NS, DnsQuery ''example.com'' A, DnsQuery ''example.com'' MX,
       WhoisQuery ''example.com'']) =
     (Inr (empty_ssl_info\<lparr>has_ssl := True, issuer := PDict [], subject := PDict [],
        not_before := PStr [], not_after := PStr [], serial_number := PStr [],
        version := PInt 3\<rparr>),
      recovering_fetched ''example.com'' @
      [DnsQuery ''example.com'' NS, DnsQuery ''example.com'' A, DnsQuery ''example.com'' MX,
       WhoisQuery ''example.com'', TlsConnect ''example.com'' 5])"
    by (intro conjI recovering_fetches)
  from inst [THEN conjunct1, THEN mp, OF hyp] obtain a where
    "analyze_domain recovering_net ''example.com'' [] =
       (Inr a, recovering_fetched ''example.com'' @
        [DnsQuery ''example.com'' NS, DnsQuery ''example.com'' A, DnsQuery ''example.com'' MX,
         WhoisQuery ''example.com'', TlsConnect ''example.com'' 5])"
    "''DNS_NS'' \<in> set (signatures a) \<longleftrightarrow>
       answered (resolve recovering_net (recovering_fetched ''example.com'') ''example.com'' NS)"
    by blast
  with recovering_answered have a: "''DNS_NS'' \<in>
      set (signatures (projr (fst (analyze_domain recovering_net ''example.com'' []))))"
    by simp
  from signatures_from_own_queries [of dead_net "''example.com''" "[]",
      THEN conjunct2, THEN mp, OF steady_dead_net]
  obtain b s' where
    "analyze_domain dead_net ''example.com'' [] = (Inr b, s')"
    "''DNS_NS'' \<in> set (signatures b) \<longleftrightarrow> dns_get b ns_records"
    by blast
  then have b: "''DNS_NS'' \<in>
      set (signatures (projr (fst (analyze_domain dead_net ''example.com'' [])))) \<longleftrightarrow>
    dns_get (projr (fst (analyze_domain dead_net ''example.com'' []))) ns_records"
    by simp
  from a b steady_dead_net show ?thesis by blast
qed


subsection \<open>The web archive analyzer\<close>

lemma parse_int_Nil: "parse_int U [] = None"
  by (simp add: parse_int_def strip_def)

lemma snapshot_year_truthy: "snapshot_year U v = Some y \<Longrightarrow> truthy v"
  by (cases v) (auto simp: snapshot_year_def parse_int_Nil split: option.splits)

lemma year_of_cases:
  "(snapshot_year U v = None \<longrightarrow> (\<exists>x. year_of U v s = (Inl x, s))) \<and>
   (\<forall>y. snapshot_year U v = Some y \<longrightarrow> year_of U v s = (Inr y, s))"
  by (cases "py_slice4 v"; cases "py_int U (projr (py_slice4 v))")
    (auto simp: year_of_def snapshot_year_def bind_io_def lift_result_def)

lemma snapshot_year_PNone [simp]: "snapshot_year U PNone = None"
  by (simp add: snapshot_year_def)

lemma four_digit_year:
  assumes "\<forall>c \<in> set [f1, f2, f3, f4]. 48 \<le> c \<and> c \<le> 57"
  shows "snapshot_year U (PStr (f1 # f2 # f3 # f4 # rest)) =
    Some (int ((f1 - 48) * 1000 + (f2 - 48) * 100 + (f3 - 48) * 10 + (f4 - 48)))"
  using assms
  by (simp add: snapshot_year_def parse_int_def int_ascii_def strip_def is_space_def
      parse_unsigned_def digit_val_def)

lemma years_covered_stmt_ok:
  assumes "years_covered a = 0" and "years_covered_stmt n a s = ((x, a'), s')"
  shows "years_ok (unicode n) a'"
proof (cases "truthy (first_snapshot a) \<and> truthy (last_snapshot a)")
  case False
  with assms(2) have a': "a' = a"
    by (auto simp: years_covered_stmt_def if_stmt_def)
  from False have "snapshot_year (unicode n) (first_snapshot a) = None \<or>
      snapshot_year (unicode n) (last_snapshot a) = None"
    using snapshot_year_truthy by (metis not_Some_eq)
  with assms(1) show ?thesis
    unfolding a' years_ok_def by (auto split: option.splits)
next
  case True
  show ?thesis
  proof (cases "snapshot_year (unicode n) (first_snapshot a)")
    case None
    with year_of_cases [of "unicode n" "first_snapshot a" s] obtain e where
      "year_of (unicode n) (first_snapshot a) s = (Inl e, s)" by blast
    with True assms(2) have "a' = a"
      by (auto simp: years_covered_stmt_def if_stmt_def assign_def bind_io_def)
    with None assms(1) show ?thesis
      by (simp add: years_ok_def)
  next
    case (Some fy)
    with year_of_cases [of "unicode n" "first_snapshot a" s]
    have fy: "year_of (unicode n) (first_snapshot a) s = (Inr fy, s)" by blast
    show ?thesis
    proof (cases "snapshot_year (unicode n) (last_snapshot a)")
      case None
      with year_of_cases [of "unicode n" "last_snapshot a" s] obtain e where
        "year_of (unicode n) (last_snapshot a) s = (Inl e, s)" by blast
      with True fy assms(2) have "a' = a"
        by (auto simp: years_covered_stmt_def if_stmt_def assign_def bind_io_def)
      with None assms(1) show ?thesis
        by (simp add: years_ok_def split: option.splits)
    next
      case ly: (Some ly)
      with year_of_cases [of "unicode n" "last_snapshot a" s]
      have "year_of (unicode n) (last_snapshot a) s = (Inr ly, s)" by blast
      with True fy assms(2) have "a' = a\<lparr>years_covered := ly - fy + 1\<rparr>"
        by (auto simp: years_covered_stmt_def if_stmt_def assign_def bind_io_def ret_def)
      with Some ly show ?thesis
        by (simp add: years_ok_def)
    qed
  qed
qed

lemma years_ok_fresh:
  "years_covered a = 0 \<Longrightarrow> last_snapshot a = PNone \<Longrightarrow> years_ok U a"
  by (simp add: years_ok_def split: option.splits)

lemma snapshots_block_ok:
  assumes "years_covered a = 0" and "last_snapshot a = PNone"
    and "snapshots_block n d a s = ((x, a'), s')"
  shows "years_ok (unicode n) a'"
proof -
  obtain r1 s1 where 1: "get_snapshot_count n d s = (r1, s1)" by (metis surj_pair)
  show ?thesis
  proof (cases r1)
    case (Inl e)
    with 1 assms(3) have "a' = a"
      by (auto simp: snapshots_block_def assign_def)
    with assms(1,2) show ?thesis
      by (simp add: years_ok_fresh)
  next
    case (Inr total)
    let ?a1 = "a\<lparr>total_snapshots := total\<rparr>"
    obtain r2 s2 where 2: "snapshot_query n d ''oldest'' s1 = (r2, s2)" by (metis surj_pair)
    show ?thesis
    proof (cases r2)
      case (Inl e)
      with 1 2 Inr assms(3) have "a' = ?a1"
        by (auto simp: snapshots_block_def assign_def)
      with assms(1,2) show ?thesis
        by (simp add: years_ok_fresh)
    next
      case first: (Inr v)
      let ?a2 = "case v of None \<Rightarrow> ?a1 | Some ts \<Rightarrow> ?a1\<lparr>first_snapshot := ts\<rparr>"
      have a2: "years_covered ?a2 = 0" "last_snapshot ?a2 = PNone"
        using assms(1,2) by (auto split: option.splits)
      obtain r3 s3 where 3: "snapshot_query n d ''latest'' s2 = (r3, s3)"
        by (metis surj_pair)
      show ?thesis
      proof (cases r3)
        case (Inl e)
        with 1 2 3 Inr first assms(3) have "a' = ?a2"
          by (auto simp: snapshots_block_def assign_def)
        with a2 show ?thesis
          by (simp add: years_ok_fresh)
      next
        case last: (Inr u)
        let ?a3 = "case u of None \<Rightarrow> ?a2 | Some ts \<Rightarrow> ?a2\<lparr>last_snapshot := ts\<rparr>"
        have a3: "years_covered ?a3 = 0"
          using a2(1) by (auto split: option.splits)
        from 1 2 3 Inr first last assms(3)
        have "years_covered_stmt n ?a3 s3 = ((x, a'), s')"
          by (simp add: snapshots_block_def assign_def split: prod.splits option.splits)
        from years_covered_stmt_ok [OF a3 this] show ?thesis .
      qed
    qed
  qed
qed

lemma analyze_webarchive_ok:
  "\<exists>a s'. analyze_webarchive n d s = (Inr a, s') \<and> years_ok (unicode n) a"
proof -
  let ?E = "bind_io (check_wayback_availability n d) (\<lambda>availability.
              lift_result (py_item availability ''available''))"
  let ?a0 = "initial_wa_analysis d"
  have init: "years_covered ?a0 = 0" "last_snapshot ?a0 = PNone"
    by (simp_all add: initial_wa_analysis_def)
  have keep: "years_ok U (a\<lparr>error' := v\<rparr>) = years_ok U a" for a v U
    by (simp add: years_ok_def)
  obtain r0 s0 where 0: "?E s = (r0, s0)" by (metis surj_pair)
  show ?thesis
  proof (cases r0)
    case (Inl e)
    with 0 years_ok_fresh [OF init] show ?thesis
      by (simp add: analyze_webarchive_def run_fn_def try_stmt_def assign_def ret_def keep)
  next
    case (Inr v)
    let ?a1 = "?a0\<lparr>has_snapshots := v\<rparr>"
    have a1: "years_covered ?a1 = 0" "last_snapshot ?a1 = PNone"
      using init by simp_all
    show ?thesis
    proof (cases "truthy v")
      case False
      with 0 Inr years_ok_fresh [OF a1] show ?thesis
        by (simp add: analyze_webarchive_def run_fn_def try_stmt_def assign_def if_stmt_def)
    next
      case True
      obtain x a' s' where blk: "snapshots_block n d ?a1 s0 = ((x, a'), s')"
        by (metis surj_pair)
      from snapshots_block_ok [OF a1 blk] have ok: "years_ok (unicode n) a'" .
      from 0 Inr True blk ok show ?thesis
        by (cases x)
          (simp_all add: analyze_webarchive_def run_fn_def try_stmt_def assign_def if_stmt_def
            ret_def keep)
    qed
  qed
qed

lemmas archive_eval =
  analyze_webarchive_def run_fn_def try_stmt_def assign_def if_stmt_def
  snapshots_block_def years_covered_stmt_def initial_wa_analysis_def
  check_wayback_availability_def get_snapshot_count_def snapshot_query_def
  closest_get_def year_of_def archive_service_def dead_net_def
  bind_io_def try_io_def lift_result_def ret_def http_get_def
  wayback_base_url_def cdx_base_url_def ustr_of_def sample_ucd_def
  parse_int_def int_ascii_def strip_def is_space_def parse_unsigned_def digit_val_def

lemma archive_run:
  "\<exists>s'. analyze_webarchive archive_net ''example.com'' [] =
     (Inr \<lparr>domain' = ''example.com'', has_snapshots = PBool True, total_snapshots = PInt 0,
           first_snapshot = PStr (ustr_of ''20080315120000''),
           last_snapshot = PStr (ustr_of ''20231120000000''),
           years_covered = 16, error' = None\<rparr>, s')"
  by (simp add: archive_net_def archive_eval)

lemma garbled_run:
  "\<exists>s'. analyze_webarchive garbled_archive_net ''example.com'' [] =
     (Inr \<lparr>domain' = ''example.com'', has_snapshots = PBool True, total_snapshots = PInt 0,
           first_snapshot = PStr (ustr_of ''abcd0315120000''),
           last_snapshot = PStr (ustr_of ''20231120000000''),
           years_covered = 0, error' = Some ''ValueError''\<rparr>, s')"
  by (simp add: garbled_archive_net_def archive_eval)

lemma no_break_space_run:
  "\<exists>s'. analyze_webarchive
       (archive_service (160 # ustr_of ''2000315120000'') (ustr_of ''20231120000000''))
       ''example.com'' [] =
     (Inr \<lparr>domain' = ''example.com'', has_snapshots = PBool True, total_snapshots = PInt 0,
           first_snapshot = PStr (160 # ustr_of ''2000315120000''),
           last_snapshot = PStr (ustr_of ''20231120000000''),
           years_covered = 1824, error' = None\<rparr>, s')"
  by (simp add: archive_eval)

lemma file_separator_run:
  "\<exists>s'. analyze_webarchive
       (archive_service (28 # ustr_of ''2000315120000'') (ustr_of ''20231120000000''))
       ''example.com'' [] =
     (Inr \<lparr>domain' = ''example.com'', has_snapshots = PBool True, total_snapshots = PInt 0,
           first_snapshot = PStr (28 # ustr_of ''2000315120000''),
           last_snapshot = PStr (ustr_of ''20231120000000''),
           years_covered = 0, error' = Some ''ValueError''\<rparr>, s')"
  by (simp add: archive_eval)

lemma dead_archive_run:
  "analyze_webarchive dead_net ''example.com'' [] =
      (Inr ((initial_wa_analysis ''example.com'')\<lparr>has_snapshots := PBool False\<rparr>),
       [HttpGet (wayback_base_url @ ''?url=example.com'')])"
  by (simp add: analyze_webarchive_def run_fn_def try_stmt_def assign_def if_stmt_def
      check_wayback_availability_def dead_net_def bind_io_def try_io_def lift_result_def
      ret_def http_get_def not_available_def)

text \<open>
  An archive that reports the first timestamp \<open>abcd0315120000\<close> and the last timestamp
  \<open>20231120000000\<close>: both timestamps are recovered and stored, \<open>int\<close> raises on the first
  four characters of the first one, and \<open>years_covered\<close> stays 0 with \<open>error\<close> set.
\<close>

theorem years_covered_garbled_counterexample:
  "\<not> isl (fst (analyze_webarchive garbled_archive_net ''example.com'' [])) \<and>
   first_snapshot (projr (fst (analyze_webarchive garbled_archive_net ''example.com'' []))) =
     PStr (ustr_of ''abcd0315120000'') \<and>
   last_snapshot (projr (fst (analyze_webarchive garbled_archive_net ''example.com'' []))) =
     PStr (ustr_of ''20231120000000'') \<and>
   fst (year_of (unicode garbled_archive_net) (PStr (ustr_of ''abcd0315120000'')) []) =
     Inl (Exn ''ValueError'') \<and>
   years_covered (projr (fst (analyze_webarchive garbled_archive_net ''example.com'' []))) = 0 \<and>
   error' (projr (fst (analyze_webarchive garbled_archive_net ''example.com'' []))) =
     Some ''ValueError''"
proof -
  have "fst (year_of (unicode garbled_archive_net) (PStr (ustr_of ''abcd0315120000'')) []) =
     Inl (Exn ''ValueError'')"
    by (simp add: garbled_archive_net_def archive_eval)
  with garbled_run show ?thesis by auto
qed

text \<open>
  C8, as amended. For every web archive analysis, \<open>years_covered\<close> is the last year minus
  the first year plus one when both snapshot timestamps were recovered and the first four
  characters of each have an integer value by \<open>int\<close>, those values being the years. It is 0
  when a timestamp is missing or empty, and also when a recovered timestamp does not begin
  with an integer. Four leading ASCII digits have their decimal value, so the timestamps
  \<open>20080315120000\<close> and \<open>20231120000000\<close> give 16.
\<close>

theorem years_covered_from_snapshots:
  "(\<exists>a s'. analyze_webarchive n d s = (Inr a, s') \<and>
      (\<forall>fy ly. snapshot_year (unicode n) (first_snapshot a) = Some fy \<and>
         snapshot_year (unicode n) (last_snapshot a) = Some ly \<longrightarrow>
         years_covered a = ly - fy + 1) \<and>
      (snapshot_year (unicode n) (first_snapshot a) = None \<or>
       snapshot_year (unicode n) (last_snapshot a) = None \<longrightarrow> years_covered a = 0) \<and>
      (first_snapshot a = PNone \<or> last_snapshot a = PNone \<or>
       first_snapshot a = PStr [] \<or> last_snapshot a = PStr [] \<longrightarrow> years_covered a = 0) \<and>
      (first_snapshot a = PStr (ustr_of ''20080315120000'') \<and>
       last_snapshot a = PStr (ustr_of ''20231120000000'') \<longrightarrow> years_covered a = 16)) \<and>
   ((\<forall>c \<in> set [f1, f2, f3, f4]. 48 \<le> c \<and> c \<le> 57) \<longrightarrow>
      snapshot_year U (PStr (f1 # f2 # f3 # f4 # rest)) =
        Some (int ((f1 - 48) * 1000 + (f2 - 48) * 100 + (f3 - 48) * 10 + (f4 - 48))))"
proof (intro conjI impI)
  from analyze_webarchive_ok [of n d s] obtain a s' where
    a: "analyze_webarchive n d s = (Inr a, s')" "years_ok (unicode n) a"
    by blast
  let ?f = "snapshot_year (unicode n) (first_snapshot a)"
  let ?l = "snapshot_year (unicode n) (last_snapshot a)"
  from a(2) have eq: "years_covered a =
      (case (?f, ?l) of (Some fy, Some ly) \<Rightarrow> ly - fy + 1 | _ \<Rightarrow> 0)"
    by (simp add: years_ok_def)
  have both: "\<forall>fy ly. ?f = Some fy \<and> ?l = Some ly \<longrightarrow> years_covered a = ly - fy + 1"
    unfolding eq by simp
  have none: "?f = None \<or> ?l = None \<longrightarrow> years_covered a = 0"
    unfolding eq by (auto split: option.splits)
  have empty: "snapshot_year (unicode n) (PStr []) = None"
    by (simp add: snapshot_year_def parse_int_Nil)
  have missing: "first_snapshot a = PNone \<or> last_snapshot a = PNone \<or>
       first_snapshot a = PStr [] \<or> last_snapshot a = PStr [] \<longrightarrow> years_covered a = 0"
    using none empty by auto
  have y1: "snapshot_year (unicode n) (PStr (ustr_of ''20080315120000'')) = Some 2008"
    by (simp add: ustr_of_def four_digit_year)
  have y2: "snapshot_year (unicode n) (PStr (ustr_of ''20231120000000'')) = Some 2023"
    by (simp add: ustr_of_def four_digit_year)
  have example: "first_snapshot a = PStr (ustr_of ''20080315120000'') \<and>
       last_snapshot a = PStr (ustr_of ''20231120000000'') \<longrightarrow> years_covered a = 16"
    using both y1 y2 by auto
  from a(1) both none missing example
  show "\<exists>a s'. analyze_webarchive n d s = (Inr a, s') \<and>
      (\<forall>fy ly. snapshot_year (unicode n) (first_snapshot a) = Some fy \<and>
         snapshot_year (unicode n) (last_snapshot a) = Some ly \<longrightarrow>
         years_covered a = ly - fy + 1) \<and>
      (snapshot_year (unicode n) (first_snapshot a) = None \<or>
       snapshot_year (unicode n) (last_snapshot a) = None \<longrightarrow> years_covered a = 0) \<and>
      (first_snapshot a = PNone \<or> last_snapshot a = PNone \<or>
       first_snapshot a = PStr [] \<or> last_snapshot a = PStr [] \<longrightarrow> years_covered a = 0) \<and>
      (first_snapshot a = PStr (ustr_of ''20080315120000'') \<and>
       last_snapshot a = PStr (ustr_of ''20231120000000'') \<longrightarrow> years_covered a = 16)"
    by (intro exI [of _ a] exI [of _ s'] conjI)
next
  assume "\<forall>c \<in> set [f1, f2, f3, f4]. 48 \<le> c \<and> c \<le> 57"
  then show "snapshot_year U (PStr (f1 # f2 # f3 # f4 # rest)) =
        Some (int ((f1 - 48) * 1000 + (f2 - 48) * 100 + (f3 - 48) * 10 + (f4 - 48)))"
    by (rule four_digit_year)
qed

theorem years_covered_from_snapshots_witness:
  "years_covered (projr (fst (analyze_webarchive archive_net ''example.com'' []))) = 16 \<and>
   years_covered (projr (fst (analyze_webarchive dead_net ''example.com'' []))) = 0 \<and>
   years_covered (projr (fst (analyze_webarchive garbled_archive_net ''example.com'' []))) = 0 \<and>
   snapshot_year sample_ucd (PStr (ustr_of ''20080315120000'')) = Some 2008"
proof -
  from years_covered_from_snapshots [of archive_net "''example.com''" "[]", THEN conjunct1]
  obtain a s' where a: "analyze_webarchive archive_net ''example.com'' [] = (Inr a, s')"
    "\<forall>fy ly. snapshot_year (unicode archive_net) (first_snapshot a) = Some fy \<and>
       snapshot_year (unicode archive_net) (last_snapshot a) = Some ly \<longrightarrow>
       years_covered a = ly - fy + 1"
    "snapshot_year (unicode archive_net) (first_snapshot a) = None \<or>
       snapshot_year (unicode archive_net) (last_snapshot a) = None \<longrightarrow> years_covered a = 0"
    "first_snapshot a = PNone \<or> last_snapshot a = PNone \<or>
       first_snapshot a = PStr [] \<or> last_snapshot a = PStr [] \<longrightarrow> years_covered a = 0"
    "first_snapshot a = PStr (ustr_of ''20080315120000'') \<and>
       last_snapshot a = PStr (ustr_of ''20231120000000'') \<longrightarrow> years_covered a = 16"
    by (elim exE conjE) (rule that; assumption)
  from a(1) archive_run have "first_snapshot a = PStr (ustr_of ''20080315120000'') \<and>
       last_snapshot a = PStr (ustr_of ''20231120000000'')"
    by auto
  with a(1,5) have w1:
    "years_covered (projr (fst (analyze_webarchive archive_net ''example.com'' []))) = 16"
    by simp
  from years_covered_from_snapshots [of dead_net "''example.com''" "[]", THEN conjunct1]
  obtain b t' where b: "analyze_webarchive dead_net ''example.com'' [] = (Inr b, t')"
    "\<forall>fy ly. snapshot_year (unicode dead_net) (first_snapshot b) = Some fy \<and>
       snapshot_year (unicode dead_net) (last_snapshot b) = Some ly \<longrightarrow>
       years_covered b = ly - fy + 1"
    "snapshot_year (unicode dead_net) (first_snapshot b) = None \<or>
       snapshot_year (unicode dead_net) (last_snapshot b) = None \<longrightarrow> years_covered b = 0"
    "first_snapshot b = PNone \<or> last_snapshot b = PNone \<or>
       first_snapshot b = PStr [] \<or> last_snapshot b = PStr [] \<longrightarrow> years_covered b = 0"
    "first_snapshot b = PStr (ustr_of ''20080315120000'') \<and>
       last_snapshot b = PStr (ustr_of ''20231120000000'') \<longrightarrow> years_covered b = 16"
    by (elim exE conjE) (rule that; assumption)
  from b(1) dead_archive_run have "first_snapshot b = PNone"
    by (auto simp: initial_wa_analysis_def)
  with b(1,4) have w2:
    "years_covered (projr (fst (analyze_webarchive dead_net ''example.com'' []))) = 0"
    by simp
  from years_covered_from_snapshots [of garbled_archive_net "''example.com''" "[]",
      THEN conjunct1]
  obtain c u' where c: "analyze_webarchive garbled_archive_net ''example.com'' [] = (Inr c, u')"
    "\<forall>fy ly. snapshot_year (unicode garbled_archive_net) (first_snapshot c) = Some fy \<and>
       snapshot_year (unicode garbled_archive_net) (last_snapshot c) = Some ly \<longrightarrow>
       years_covered c = ly - fy + 1"
    "snapshot_year (unicode garbled_archive_net) (first_snapshot c) = None \<or>
       snapshot_year (unicode garbled_archive_net) (last_snapshot c) = None \<longrightarrow>
       years_covered c = 0"
    "first_snapshot c = PNone \<or> last_snapshot c = PNone \<or>
       first_snapshot c = PStr [] \<or> last_snapshot c = PStr [] \<longrightarrow> years_covered c = 0"
    "first_snapshot c = PStr (ustr_of ''20080315120000'') \<and>
       last_snapshot c = PStr (ustr_of ''20231120000000'') \<longrightarrow> years_covered c = 16"
    by (elim exE conjE) (rule that; assumption)
  from c(1) garbled_run have "first_snapshot c = PStr (ustr_of ''abcd0315120000'')"
    by auto
  then have "snapshot_year (unicode garbled_archive_net) (first_snapshot c) = None"
    by (simp add: snapshot_year_def garbled_archive_net_def archive_eval)
  with c(1,3) have w3:
    "years_covered (projr (fst (analyze_webarchive garbled_archive_net ''example.com'' []))) = 0"
    by simp
  have digits: "\<forall>c \<in> set [50, 48, 48, 56 :: nat]. 48 \<le> c \<and> c \<le> 57"
    by simp
  from years_covered_from_snapshots [of _ _ _ 50 48 48 56 sample_ucd
      "ustr_of ''0315120000''", THEN conjunct2, THEN mp, OF digits]
  have w4: "snapshot_year sample_ucd (PStr (ustr_of ''20080315120000'')) = Some 2008"
    by (simp add: ustr_of_def)
  from w1 w2 w3 w4 show ?thesis by blast
qed

end
